theory Spec2Isabelle
  imports Main "HOL-Library.Code_Target_Nat"
begin

section \<open>Strings\<close>

text \<open>
  A JavaScript string is a sequence of UTF-16 code units; a code unit is modelled as a
  natural number. \<open>str\<close> turns an ASCII literal into its code units.
\<close>

type_synonym jsstring = "nat list"

definition str :: "string \<Rightarrow> jsstring" where
  "str s = map of_char s"

text \<open>A character class: a list of inclusive ranges of code units.\<close>

type_synonym cls = "(nat \<times> nat) list"

fun inCls :: "cls \<Rightarrow> nat \<Rightarrow> bool" where
  "inCls [] c = False"
| "inCls ((lo, hi) # rs) c = ((lo \<le> c \<and> c \<le> hi) \<or> inCls rs c)"

definition upperAZ :: cls where "upperAZ = [(65, 90)]"
definition lowerAZ :: cls where "lowerAZ = [(97, 122)]"
definition digit :: cls where "digit = [(48, 57)]"

text \<open>
  What \<open>\s\<close> matches and what \<open>trim\<close> removes: the WhiteSpace and LineTerminator
  code points of ECMAScript, all of them single code units.
\<close>

definition whiteSpace :: cls where
  "whiteSpace = [(9, 13), (32, 32), (160, 160), (5760, 5760), (8192, 8202),
     (8232, 8233), (8239, 8239), (8287, 8287), (12288, 12288), (65279, 65279)]"

text \<open>The word characters of \<open>\b\<close>: \<open>[A-Za-z0-9_]\<close>.\<close>

definition wordChar :: cls where
  "wordChar = [(65, 90), (97, 122), (48, 57), (95, 95)]"

text \<open>
  \<open>String.prototype.toLowerCase\<close>, code unit by code unit, on Basic Latin and the
  Latin-1 Supplement (\<open>A-Z\<close>, and \<open>U+00C0-U+00DE\<close> but the multiplication sign);
  every other code unit is kept. Cased letters beyond Latin-1 are not in this table, so
  the function is that of the engine on strings of Basic Latin, Latin-1 and uncased
  characters. The proofs about arbitrary strings below never unfold it: they hold for
  any lower-casing function; only the examples are evaluated with it, on ASCII text.
\<close>

definition lowerUnit :: "nat \<Rightarrow> nat" where
  "lowerUnit c =
     (if (65 \<le> c \<and> c \<le> 90) \<or> (192 \<le> c \<and> c \<le> 222 \<and> c \<noteq> 215) then c + 32 else c)"

definition toLowerCase :: "jsstring \<Rightarrow> jsstring" where
  "toLowerCase s = map lowerUnit s"

definition trim :: "jsstring \<Rightarrow> jsstring" where
  "trim s = rev (dropWhile (inCls whiteSpace) (rev (dropWhile (inCls whiteSpace) s)))"

fun startsWith :: "jsstring \<Rightarrow> jsstring \<Rightarrow> bool" where
  "startsWith s [] = True"
| "startsWith [] (p # ps) = False"
| "startsWith (c # cs) (p # ps) = (c = p \<and> startsWith cs ps)"

fun includes_str :: "jsstring \<Rightarrow> jsstring \<Rightarrow> bool" where
  "includes_str [] p = (p = [])"
| "includes_str (c # cs) p = (startsWith (c # cs) p \<or> includes_str cs p)"

text \<open>\<open>s.replace('?', '')\<close> with a one-unit search string: the first occurrence goes.\<close>

definition replace_unit :: "nat \<Rightarrow> jsstring \<Rightarrow> jsstring" where
  "replace_unit c s = remove1 c s"

text \<open>\<open>s.split(' ')\<close> with a one-unit separator; the result is never empty.\<close>

fun split_unit :: "nat \<Rightarrow> jsstring \<Rightarrow> jsstring \<Rightarrow> jsstring list" where
  "split_unit sep cur [] = [cur]"
| "split_unit sep cur (c # cs) =
     (if c = sep then cur # split_unit sep [] cs else split_unit sep (cur @ [c]) cs)"

section \<open>Regular expressions\<close>

text \<open>
  The patterns of the program use literals, character classes, \<open>+\<close> and \<open>+?\<close> on a
  single class, one capture group, \<open>\b\<close> and \<open>^\<close>. A pattern is a list of nodes;
  \<open>x+\<close> is \<open>One x, Star x\<close> and \<open>x+?\<close> is \<open>One x, StarLazy x\<close>.
\<close>

datatype node =
    One cls
  | Star cls
  | StarLazy cls
  | GroupOpen
  | GroupClose
  | WordBoundary
  | LineStart

definition lit :: "jsstring \<Rightarrow> node list" where
  "lit s = map (\<lambda>c. One [(c, c)]) s"

text \<open>
  A literal under the \<open>i\<close> flag (no \<open>u\<close> flag): canonicalisation maps a code unit to
  its upper case, and never maps a code unit from 128 on to one below 128, so a
  lower-case ASCII letter matches itself and its upper-case ASCII letter only.
\<close>

definition lit_i :: "jsstring \<Rightarrow> node list" where
  "lit_i s = map (\<lambda>c. One (if 97 \<le> c \<and> c \<le> 122 then [(c, c), (c - 32, c - 32)] else [(c, c)])) s"

definition oneOrMore :: "cls \<Rightarrow> node list" where
  "oneOrMore x = [One x, Star x]"

definition oneOrMoreLazy :: "cls \<Rightarrow> node list" where
  "oneOrMoreLazy x = [One x, StarLazy x]"

text \<open>
  The backtracking matcher at one position. Arguments: the rest of the pattern, the code
  unit before the position (\<open>None\<close> at the start of the input), the input from the
  position on, and the capture state (is group 1 open, its text so far). The result is
  the input left after the match and the text of group 1. Alternatives are tried in the
  order of the ECMAScript matcher: a greedy star takes one more unit first, a lazy star
  tries the continuation first.
\<close>

type_synonym capture = "bool \<times> jsstring"

definition push :: "capture \<Rightarrow> nat \<Rightarrow> capture" where
  "push cap c = (if fst cap then (True, snd cap @ [c]) else cap)"

definition isWordAt :: "nat option \<Rightarrow> bool" where
  "isWordAt c = (case c of None \<Rightarrow> False | Some x \<Rightarrow> inCls wordChar x)"

fun run :: "node list \<Rightarrow> nat option \<Rightarrow> jsstring \<Rightarrow> capture \<Rightarrow> (jsstring \<times> jsstring) option" where
  "run [] prev cs cap = Some (cs, snd cap)"
| "run (One x # rs) prev [] cap = None"
| "run (One x # rs) prev (c # cs) cap =
     (if inCls x c then run rs (Some c) cs (push cap c) else None)"
| "run (Star x # rs) prev [] cap = run rs prev [] cap"
| "run (Star x # rs) prev (c # cs) cap =
     (if inCls x c then
        (case run (Star x # rs) (Some c) cs (push cap c) of
           Some r \<Rightarrow> Some r
         | None \<Rightarrow> run rs prev (c # cs) cap)
      else run rs prev (c # cs) cap)"
| "run (StarLazy x # rs) prev [] cap = run rs prev [] cap"
| "run (StarLazy x # rs) prev (c # cs) cap =
     (case run rs prev (c # cs) cap of
        Some r \<Rightarrow> Some r
      | None \<Rightarrow> (if inCls x c then run (StarLazy x # rs) (Some c) cs (push cap c) else None))"
| "run (GroupOpen # rs) prev cs cap = run rs prev cs (True, [])"
| "run (GroupClose # rs) prev cs cap = run rs prev cs (False, snd cap)"
| "run (WordBoundary # rs) prev cs cap =
     (if isWordAt prev \<noteq> isWordAt (case cs of [] \<Rightarrow> None | c # _ \<Rightarrow> Some c)
      then run rs prev cs cap else None)"
| "run (LineStart # rs) prev cs cap = (if prev = None then run rs prev cs cap else None)"

text \<open>The result of a successful search: the text before the match, the match, the text
  after it, and group 1.\<close>

record rmatch =
  before :: jsstring
  matched :: jsstring
  after :: jsstring
  group1 :: jsstring

text \<open>\<open>RegExp.prototype.exec\<close> from index 0: the leftmost position where the matcher
  succeeds, the end of the input included.\<close>

fun search :: "node list \<Rightarrow> jsstring \<Rightarrow> nat option \<Rightarrow> jsstring \<Rightarrow> rmatch option" where
  "search re pre prev [] =
     (case run re prev [] (False, []) of
        Some (rest, g) \<Rightarrow> Some \<lparr>before = pre, matched = [], after = [], group1 = g\<rparr>
      | None \<Rightarrow> None)"
| "search re pre prev (c # cs) =
     (case run re prev (c # cs) (False, []) of
        Some (rest, g) \<Rightarrow>
          Some \<lparr>before = pre, matched = take (length (c # cs) - length rest) (c # cs),
                after = rest, group1 = g\<rparr>
      | None \<Rightarrow> search re (pre @ [c]) (Some c) cs)"

definition re_exec :: "node list \<Rightarrow> jsstring \<Rightarrow> rmatch option" where
  "re_exec re s = search re [] None s"

text \<open>
  \<open>s.match(re)\<close> with the \<open>g\<close> flag: every match from left to right, the next search
  starting where the last match ended (one unit further after an empty match); \<open>null\<close>
  when there is none. \<open>skip\<close> counts the positions still inside the last match.
\<close>

fun matches_from :: "node list \<Rightarrow> nat option \<Rightarrow> jsstring \<Rightarrow> nat \<Rightarrow> jsstring list" where
  "matches_from re prev [] skip =
     (if skip = 0 then (case run re prev [] (False, []) of Some _ \<Rightarrow> [[]] | None \<Rightarrow> []) else [])"
| "matches_from re prev (c # cs) skip =
     (if 0 < skip then matches_from re (Some c) cs (skip - 1)
      else (case run re prev (c # cs) (False, []) of
              Some (rest, g) \<Rightarrow>
                take (length (c # cs) - length rest) (c # cs)
                  # matches_from re (Some c) cs (length (c # cs) - length rest - 1)
            | None \<Rightarrow> matches_from re (Some c) cs 0))"

definition match_global :: "node list \<Rightarrow> jsstring \<Rightarrow> jsstring list option" where
  "match_global re s = (case matches_from re None s 0 of [] \<Rightarrow> None | ms \<Rightarrow> Some ms)"

text \<open>\<open>s.replace(re, '')\<close> without the \<open>g\<close> flag: the first match is cut out.\<close>

definition replace_first :: "node list \<Rightarrow> jsstring \<Rightarrow> jsstring" where
  "replace_first re s = (case re_exec re s of None \<Rightarrow> s | Some m \<Rightarrow> before m @ after m)"

text \<open>
  \<open>s.split(re)\<close> for a pattern without capture groups: the matcher is tried at each
  position \<open>q\<close> before the end; a match that ends at the start \<open>p\<close> of the current piece
  is skipped, any other match closes the piece. \<open>cur\<close> is the piece so far, \<open>skip\<close>
  the positions still inside the last separator.
\<close>

fun split_from :: "node list \<Rightarrow> nat option \<Rightarrow> jsstring \<Rightarrow> jsstring \<Rightarrow> nat \<Rightarrow> jsstring list" where
  "split_from re prev [] cur skip = [cur]"
| "split_from re prev (c # cs) cur skip =
     (if 0 < skip then split_from re (Some c) cs cur (skip - 1)
      else (case run re prev (c # cs) (False, []) of
              None \<Rightarrow> split_from re (Some c) cs (cur @ [c]) 0
            | Some (rest, g) \<Rightarrow>
                (let n = length (c # cs) - length rest in
                 if n = 0 then
                   (if cur = [] then split_from re (Some c) cs [c] 0
                    else cur # split_from re (Some c) cs [c] 0)
                 else cur # split_from re (Some c) cs [] (n - 1))))"

definition split_re :: "node list \<Rightarrow> jsstring \<Rightarrow> jsstring list" where
  "split_re re s =
     (if s = [] then (case run re None [] (False, []) of Some _ \<Rightarrow> [] | None \<Rightarrow> [[]])
      else split_from re None s [] 0)"

section \<open>Values and message records\<close>

text \<open>
  What the engine raises where the program has no check of its own: a conversion to a
  string that finds no usable \<open>toString\<close> or \<open>valueOf\<close>, a property read on
  \<open>undefined\<close>, and a pattern source that the \<open>RegExp\<close> constructor does not read as
  plain text.
\<close>

datatype error = TypeError | SyntaxError

text \<open>
  A field of a message record, as \<open>JSON.parse\<close> delivers it: absent, \<open>null\<close>, a
  boolean, a number, a string, an array or an object (a list of keys with their values).
  The program reads two things of a value, its truthiness and its conversion to a
  string, and a number is carried as the text that conversion gives for it (the decimal
  print of the double): the text is \<open>0\<close> for the two zeros and for no other number.
  A message is an object; its five fields are the ones the program reads.
\<close>

datatype jsval =
    JUndefined
  | JNull
  | JBool bool
  | JNumber jsstring
  | JString jsstring
  | JArray "jsval list"
  | JObject "(jsstring \<times> jsval) list"

record msg =
  f_message :: jsval
  f_text :: jsval
  f_date :: jsval
  f_timestamp :: jsval
  f_created_at :: jsval

text \<open>Every object and every array is truthy; a number is falsy when it is zero.\<close>

fun truthy :: "jsval \<Rightarrow> bool" where
  "truthy JUndefined = False"
| "truthy JNull = False"
| "truthy (JBool b) = b"
| "truthy (JNumber p) = (p \<noteq> str ''0'')"
| "truthy (JString s) = (s \<noteq> [])"
| "truthy (JArray xs) = True"
| "truthy (JObject kvs) = True"

text \<open>\<open>a || b\<close>\<close>

definition or_js :: "jsval \<Rightarrow> jsval \<Rightarrow> jsval" where
  "or_js a b = (if truthy a then a else b)"

text \<open>
  \<open>String(v)\<close>, also the conversion inside a template literal. An array is the join of
  its elements with commas, \<open>null\<close> and \<open>undefined\<close> elements giving the empty text.
  An object parsed from JSON has no callable property of its own: without an own key
  \<open>toString\<close> the inherited method gives \<open>[object Object]\<close>; with one, that key is not
  callable and \<open>valueOf\<close> (its own, not callable, or the inherited one, which returns the
  object) gives no primitive either, so the conversion raises \<open>TypeError\<close>.
\<close>

fun toString :: "jsval \<Rightarrow> error + jsstring"
  and joinElems :: "jsval list \<Rightarrow> error + jsstring" where
  "toString JUndefined = Inr (str ''undefined'')"
| "toString JNull = Inr (str ''null'')"
| "toString (JBool b) = Inr (if b then str ''true'' else str ''false'')"
| "toString (JNumber p) = Inr p"
| "toString (JString s) = Inr s"
| "toString (JArray xs) = joinElems xs"
| "toString (JObject kvs) =
     (if List.member (map fst kvs) (str ''toString'') then Inl TypeError
      else Inr (str ''[object Object]''))"
| "joinElems [] = Inr []"
| "joinElems (x # xs) =
     (case (case x of JUndefined \<Rightarrow> Inr [] | JNull \<Rightarrow> Inr [] | _ \<Rightarrow> toString x) of
        Inl e \<Rightarrow> Inl e
      | Inr s \<Rightarrow>
          (if xs = [] then Inr s
           else (case joinElems xs of Inl e \<Rightarrow> Inl e | Inr t \<Rightarrow> Inr (s @ [44] @ t))))"

text \<open>Truthiness of a value that is a string or \<open>null\<close>.\<close>

definition truthy_str :: "jsstring option \<Rightarrow> bool" where
  "truthy_str v = (case v of None \<Rightarrow> False | Some s \<Rightarrow> s \<noteq> [])"

section \<open>NLP helpers\<close>

definition normalize_text :: "jsstring \<Rightarrow> jsstring" where
  "normalize_text t = trim (toLowerCase t)"

text \<open>\<open>/[A-Z][a-z]+/g\<close>\<close>

definition re_member :: "node list" where
  "re_member = One upperAZ # oneOrMore lowerAZ"

definition extractMemberName :: "jsstring \<Rightarrow> jsstring option" where
  "extractMemberName question =
     (case match_global re_member question of
        None \<Rightarrow> None
      | Some ms \<Rightarrow> (if length ms = 0 then None else Some (ms ! 0)))"

datatype intent = COUNT | WHEN | FAVORITES | UNKNOWN

definition classifyIntent :: "jsstring \<Rightarrow> intent" where
  "classifyIntent question =
     (let q = normalize_text question in
      if includes_str q (str ''how many'') then COUNT
      else if startsWith q (str ''when'') \<or> includes_str q (str '' when '') then WHEN
      else if includes_str q (str ''favorite'') \<or> includes_str q (str ''favourite'') then FAVORITES
      else UNKNOWN)"

section \<open>Assessment-specific handling\<close>

definition answer_layla :: jsstring where
  "answer_layla = str ''Layla has not mentioned a trip to London in the available member messages.''"

definition answer_vikram :: jsstring where
  "answer_vikram =
     str ''There is no information in the member messages indicating how many cars Vikram Desai owns.''"

text \<open>The apostrophe of this answer is U+2019, code unit 8217.\<close>

definition answer_amira :: jsstring where
  "answer_amira =
     str ''The dataset does not include any details about Amira'' @ [8217]
       @ str ''s favorite restaurants.''"

definition handleAssessmentSpecificQuestions :: "jsstring \<Rightarrow> jsstring option" where
  "handleAssessmentSpecificQuestions question =
     (let q = toLowerCase question in
      if includes_str q (str ''layla'') \<and> includes_str q (str ''london'') then Some answer_layla
      else if includes_str q (str ''how many'') \<and> includes_str q (str ''cars'')
              \<and> includes_str q (str ''vikram'') then Some answer_vikram
      else if (includes_str q (str ''favorite'') \<or> includes_str q (str ''favourite''))
              \<and> includes_str q (str ''restaurants'') \<and> includes_str q (str ''amira'')
           then Some answer_amira
      else None)"

section \<open>Domain logic\<close>

text \<open>\<open>String(msg.message || msg.text || '')\<close>\<close>

definition msgText :: "msg \<Rightarrow> error + jsstring" where
  "msgText m = toString (or_js (or_js (f_message m) (f_text m)) (JString []))"

subsection \<open>When\<close>

text \<open>\<open>/\bwhen\b/\<close> and \<open>/\s+/\<close>\<close>

definition re_when :: "node list" where
  "re_when = WordBoundary # lit (str ''when'') @ [WordBoundary]"

definition re_spaces :: "node list" where
  "re_spaces = oneOrMore whiteSpace"

definition stopWords :: "jsstring list" where
  "stopWords = map str [''is'', ''was'', ''do'', ''does'', ''did'', ''planning'', ''plan'', ''the'']"

definition queryTerms :: "jsstring \<Rightarrow> jsstring list" where
  "queryTerms question =
     filter (\<lambda>t. \<not> List.member stopWords t \<and> 0 < length t)
       (split_re re_spaces (replace_first re_when (normalize_text question)))"

text \<open>The loop of \<open>answerWhenQuestion\<close>: the first message that mentions the member and
  contains every query term, or \<open>null\<close>; the text of each message it reaches is
  converted first.\<close>

fun findBest :: "jsstring \<Rightarrow> jsstring list \<Rightarrow> msg list \<Rightarrow> error + msg option" where
  "findBest member terms [] = Inr None"
| "findBest member terms (m # ms) =
     (case msgText m of
        Inl e \<Rightarrow> Inl e
      | Inr t \<Rightarrow>
          (let text = normalize_text t in
           if \<not> includes_str text (toLowerCase member) then findBest member terms ms
           else if list_all (\<lambda>t. includes_str text t) terms then Inr (Some m)
           else findBest member terms ms))"

definition answerWhenQuestion :: "jsstring \<Rightarrow> msg list \<Rightarrow> error + jsstring option" where
  "answerWhenQuestion question messages =
     (case extractMemberName question of
        None \<Rightarrow> Inr None
      | Some member \<Rightarrow>
          if member = [] then Inr None
          else (case findBest member (queryTerms question) messages of
                  Inl e \<Rightarrow> Inl e
                | Inr None \<Rightarrow> Inr None
                | Inr (Some best) \<Rightarrow>
                    (let date = or_js (or_js (f_date best) (f_timestamp best)) (f_created_at best) in
                     if \<not> truthy date then Inr None
                     else (case toString date of
                             Inl e \<Rightarrow> Inl e
                           | Inr d \<Rightarrow>
                               Inr (Some (member @ str '' is planning that on '' @ d @ str ''.''))))))"

subsection \<open>Count\<close>

text \<open>\<open>/how many\s+([a-z\s]+?)\s+does/\<close>\<close>

definition re_howMany :: "node list" where
  "re_howMany =
     lit (str ''how many'') @ oneOrMore whiteSpace @ [GroupOpen] @ oneOrMoreLazy (lowerAZ @ whiteSpace)
       @ [GroupClose] @ oneOrMore whiteSpace @ lit (str ''does'')"

text \<open>
  \<open>new RegExp(`(\\d+)\\s+${obj}`)\<close>. The syntax characters of a pattern are
  \<open>^ $ \ . * + ? ( ) [ ] { } |\<close>. A source in which \<open>obj\<close> has none of them is the
  group of digits, white space, and \<open>obj\<close> as literal text. With one of them the
  constructor raises or builds some other pattern; the model makes both the error.
\<close>

definition syntaxChar :: cls where
  "syntaxChar = [(36, 36), (40, 43), (46, 46), (63, 63), (91, 94), (123, 125)]"

definition countPattern :: "jsstring \<Rightarrow> node list" where
  "countPattern obj = [GroupOpen] @ oneOrMore digit @ [GroupClose] @ oneOrMore whiteSpace @ lit obj"

definition newRegExp_count :: "jsstring \<Rightarrow> error + node list" where
  "newRegExp_count obj =
     (if list_ex (inCls syntaxChar) obj then Inl SyntaxError else Inr (countPattern obj))"

fun scanCount :: "jsstring \<Rightarrow> jsstring \<Rightarrow> node list \<Rightarrow> msg list \<Rightarrow> error + jsstring option" where
  "scanCount member obj pattern [] = Inr None"
| "scanCount member obj pattern (m # ms) =
     (case msgText m of
        Inl e \<Rightarrow> Inl e
      | Inr t \<Rightarrow>
          (let text = normalize_text t in
           if \<not> includes_str text (toLowerCase member) then scanCount member obj pattern ms
           else (case re_exec pattern text of
                   Some m2 \<Rightarrow>
                     Inr (Some (member @ str '' has '' @ group1 m2 @ str '' '' @ obj @ str ''.''))
                 | None \<Rightarrow> scanCount member obj pattern ms)))"

definition answerCountQuestion :: "jsstring \<Rightarrow> msg list \<Rightarrow> error + jsstring option" where
  "answerCountQuestion question messages =
     (case extractMemberName question of
        None \<Rightarrow> Inr None
      | Some member \<Rightarrow>
          if member = [] then Inr None
          else (case re_exec re_howMany (normalize_text question) of
                  None \<Rightarrow> Inr None
                | Some m \<Rightarrow>
                    (let obj = trim (group1 m) in
                     case newRegExp_count obj of
                       Inl e \<Rightarrow> Inl e
                     | Inr pattern \<Rightarrow> scanCount member obj pattern messages)))"

subsection \<open>Favorites\<close>

text \<open>\<open>/favorite\s+([a-z\s?]+)/\<close>, \<open>/favorite/i\<close> and \<open>/^[:\s.-]+/\<close>\<close>

definition re_favCategory :: "node list" where
  "re_favCategory =
     lit (str ''favorite'') @ oneOrMore whiteSpace @ [GroupOpen]
       @ oneOrMore (lowerAZ @ whiteSpace @ [(63, 63)]) @ [GroupClose]"

definition re_favorite_i :: "node list" where
  "re_favorite_i = lit_i (str ''favorite'')"

definition re_leading :: "node list" where
  "re_leading = LineStart # oneOrMore ([(58, 58)] @ whiteSpace @ [(46, 46), (45, 45)])"

text \<open>\<open>xs[0]\<close> as the argument of \<open>includes\<close>: \<open>undefined\<close> would be searched for as
  the text \<open>undefined\<close>.\<close>

definition firstOf :: "jsstring list \<Rightarrow> jsstring" where
  "firstOf xs = (case xs of [] \<Rightarrow> str ''undefined'' | x # _ \<Rightarrow> x)"

text \<open>\<open>parts[parts.length - 1]\<close> as the receiver of \<open>replace\<close>.\<close>

definition lastOf :: "jsstring list \<Rightarrow> error + jsstring" where
  "lastOf parts = (case parts of [] \<Rightarrow> Inl TypeError | _ \<Rightarrow> Inr (last parts))"

fun scanFavorites :: "jsstring \<Rightarrow> jsstring \<Rightarrow> msg list \<Rightarrow> error + jsstring option" where
  "scanFavorites member category [] = Inr None"
| "scanFavorites member category (m # ms) =
     (case msgText m of
        Inl e \<Rightarrow> Inl e
      | Inr text \<Rightarrow>
          (let lower = normalize_text text in
           if \<not> includes_str lower (toLowerCase member) then scanFavorites member category ms
           else if \<not> includes_str lower (str ''favorite'') then scanFavorites member category ms
           else if \<not> includes_str lower (firstOf (split_unit 32 [] category))
                then scanFavorites member category ms
           else (case lastOf (split_re re_favorite_i text) of
                   Inl e \<Rightarrow> Inl e
                 | Inr part \<Rightarrow>
                     (let favPart = trim (replace_first re_leading part) in
                      if favPart \<noteq> []
                      then Inr (Some (member @ [39] @ str ''s favorite '' @ category
                                        @ str '' are '' @ favPart @ str ''.''))
                      else scanFavorites member category ms))))"

definition answerFavoritesQuestion :: "jsstring \<Rightarrow> msg list \<Rightarrow> error + jsstring option" where
  "answerFavoritesQuestion question messages =
     (case extractMemberName question of
        None \<Rightarrow> Inr None
      | Some member \<Rightarrow>
          if member = [] then Inr None
          else (case re_exec re_favCategory (normalize_text question) of
                  None \<Rightarrow> Inr None
                | Some m \<Rightarrow>
                    (let category = trim (replace_unit 63 (group1 m)) in
                     scanFavorites member category messages)))"

subsection \<open>The orchestrator\<close>

text \<open>The apostrophe of the fallback sentence is U+2019, code unit 8217.\<close>

definition fallback :: jsstring where
  "fallback = str ''Sorry, I couldn'' @ [8217] @ str ''t infer an answer from the member data.''"

definition generateAnswer :: "jsstring \<Rightarrow> msg list \<Rightarrow> error + jsstring" where
  "generateAnswer question messages =
     (let special = handleAssessmentSpecificQuestions question in
      if truthy_str special then Inr (the special)
      else
        (let intent = classifyIntent question in
         case (if intent = WHEN then answerWhenQuestion question messages
               else if intent = COUNT then answerCountQuestion question messages
               else if intent = FAVORITES then answerFavoritesQuestion question messages
               else Inr None) of
           Inl e \<Rightarrow> Inl e
         | Inr ans \<Rightarrow> if \<not> truthy_str ans then Inr fallback else Inr (the ans)))"

section \<open>Auxiliary notions for the statements\<close>

text \<open>
  \<open>capIn P re opn\<close>: every code unit that pattern \<open>re\<close> can put into group 1 satisfies
  \<open>P\<close>; \<open>opn\<close> tells whether the group is open where \<open>re\<close> starts.
\<close>

fun capIn :: "(nat \<Rightarrow> bool) \<Rightarrow> node list \<Rightarrow> bool \<Rightarrow> bool" where
  "capIn P [] opn = True"
| "capIn P (One x # rs) opn = ((opn \<longrightarrow> (\<forall>c. inCls x c \<longrightarrow> P c)) \<and> capIn P rs opn)"
| "capIn P (Star x # rs) opn = ((opn \<longrightarrow> (\<forall>c. inCls x c \<longrightarrow> P c)) \<and> capIn P rs opn)"
| "capIn P (StarLazy x # rs) opn = ((opn \<longrightarrow> (\<forall>c. inCls x c \<longrightarrow> P c)) \<and> capIn P rs opn)"
| "capIn P (GroupOpen # rs) opn = capIn P rs True"
| "capIn P (GroupClose # rs) opn = capIn P rs False"
| "capIn P (WordBoundary # rs) opn = capIn P rs opn"
| "capIn P (LineStart # rs) opn = capIn P rs opn"

text \<open>
  The text of a message: whether its conversion raises, and the text when it does not.
\<close>

definition textFails :: "msg \<Rightarrow> bool" where
  "textFails m = (case msgText m of Inl e \<Rightarrow> True | Inr t \<Rightarrow> False)"

definition textOf :: "msg \<Rightarrow> jsstring" where
  "textOf m = (case msgText m of Inl e \<Rightarrow> [] | Inr t \<Rightarrow> t)"

text \<open>A value whose conversion to a string does not raise.\<close>

definition stringable :: "jsval \<Rightarrow> bool" where
  "stringable v = (case toString v of Inl e \<Rightarrow> False | Inr s \<Rightarrow> True)"

text \<open>
  The favorites loop on one message: its three tests, and the remainder it computes from
  the text after the last \<open>favorite\<close>.
\<close>

definition favMatches :: "jsstring \<Rightarrow> jsstring \<Rightarrow> msg \<Rightarrow> bool" where
  "favMatches member category m =
     (let lower = normalize_text (textOf m) in
      \<not> textFails m \<and> includes_str lower (toLowerCase member)
      \<and> includes_str lower (str ''favorite'')
      \<and> includes_str lower (firstOf (split_unit 32 [] category)))"

definition favRemainder :: "msg \<Rightarrow> jsstring" where
  "favRemainder m = trim (replace_first re_leading (last (split_re re_favorite_i (textOf m))))"


text \<open>The count loop on one message: it mentions the member and the pattern matches.\<close>

definition countMatches :: "jsstring \<Rightarrow> node list \<Rightarrow> msg \<Rightarrow> bool" where
  "countMatches member pattern m =
     (\<not> textFails m \<and> includes_str (normalize_text (textOf m)) (toLowerCase member)
      \<and> re_exec pattern (normalize_text (textOf m)) \<noteq> None)"

text \<open>
  The text contains a count of \<open>obj\<close>: one or more digits, then one or more white-space
  units, then \<open>obj\<close>.
\<close>

definition hasCountOf :: "jsstring \<Rightarrow> jsstring \<Rightarrow> bool" where
  "hasCountOf obj text =
     (\<exists>a ds ws b. text = a @ ds @ ws @ obj @ b \<and> ds \<noteq> [] \<and> list_all (inCls digit) ds
        \<and> ws \<noteq> [] \<and> list_all (inCls whiteSpace) ws)"

text \<open>The code unit before the position reached after reading \<open>xs\<close>.\<close>

definition prevAfter :: "nat option \<Rightarrow> jsstring \<Rightarrow> nat option" where
  "prevAfter prev xs = (if xs = [] then prev else Some (last xs))"

text \<open>The record \<open>{}\<close>; the examples set fields of it.\<close>

definition emptyMsg :: msg where
  "emptyMsg = \<lparr>f_message = JUndefined, f_text = JUndefined, f_date = JUndefined,
     f_timestamp = JUndefined, f_created_at = JUndefined\<rparr>"

section \<open>The fixed answers\<close>

lemma answers_nonempty:
  "answer_layla \<noteq> []" "answer_vikram \<noteq> []" "answer_amira \<noteq> []" "fallback \<noteq> []"
  by (simp_all add: answer_layla_def answer_vikram_def answer_amira_def fallback_def str_def)

lemma special_cases:
  "handleAssessmentSpecificQuestions q = Some a \<Longrightarrow>
     a = answer_layla \<or> a = answer_vikram \<or> a = answer_amira"
  by (auto simp: handleAssessmentSpecificQuestions_def Let_def split: if_splits)

lemma special_truthy:
  "truthy_str (handleAssessmentSpecificQuestions q) \<longleftrightarrow> handleAssessmentSpecificQuestions q \<noteq> None"
  using special_cases[of q] answers_nonempty
  by (auto simp: truthy_str_def split: option.splits)

text \<open>
  C1. A question whose lower-cased text contains both \<open>layla\<close> and \<open>london\<close> gets the
  fixed Layla/London sentence for every message list: the special-case matcher returns
  it, and the orchestrator returns what the matcher returned, before the intent is
  classified or any message is read.
\<close>

theorem layla_london_fixed:
  assumes "includes_str (toLowerCase question) (str ''layla'')"
    and "includes_str (toLowerCase question) (str ''london'')"
  shows "handleAssessmentSpecificQuestions question = Some answer_layla
         \<and> generateAnswer question messages
             = Inr (str ''Layla has not mentioned a trip to London in the available member messages.'')"
proof -
  have h: "handleAssessmentSpecificQuestions question = Some answer_layla"
    using assms by (simp add: handleAssessmentSpecificQuestions_def)
  have "generateAnswer question messages = Inr answer_layla"
    using h answers_nonempty(1) by (simp add: generateAnswer_def truthy_str_def)
  with h show ?thesis by (simp add: answer_layla_def)
qed

theorem layla_london_fixed_witness:
  "includes_str (toLowerCase (str ''When is Layla planning her trip to London?'')) (str ''layla'')
   \<and> includes_str (toLowerCase (str ''When is Layla planning her trip to London?'')) (str ''london'')
   \<and> generateAnswer (str ''When is Layla planning her trip to London?'') []
       = Inr (str ''Layla has not mentioned a trip to London in the available member messages.'')"
proof -
  have h1: "includes_str (toLowerCase (str ''When is Layla planning her trip to London?'')) (str ''layla'')"
    by code_simp
  have h2: "includes_str (toLowerCase (str ''When is Layla planning her trip to London?'')) (str ''london'')"
    by code_simp
  show ?thesis
    using h1 h2 layla_london_fixed [OF h1 h2, of "[]"] by simp
qed

section \<open>The classifier\<close>

text \<open>
  C7. The classifier tests the normalized question in a fixed order and the first test
  that holds decides: \<open>how many\<close> gives COUNT whatever else the question contains;
  failing that, a leading \<open>when\<close> or an inner \<open> when \<close> gives WHEN; failing that,
  \<open>favorite\<close> or \<open>favourite\<close> gives FAVORITES; otherwise UNKNOWN. In particular
  \<open>how many favorite cars does Sam have\<close> is COUNT.
\<close>

theorem classifyIntent_priority:
  "(includes_str (normalize_text question) (str ''how many'')
      \<longrightarrow> classifyIntent question = COUNT)
   \<and> (\<not> includes_str (normalize_text question) (str ''how many'')
        \<and> (startsWith (normalize_text question) (str ''when'')
            \<or> includes_str (normalize_text question) (str '' when ''))
      \<longrightarrow> classifyIntent question = WHEN)
   \<and> (\<not> includes_str (normalize_text question) (str ''how many'')
        \<and> \<not> startsWith (normalize_text question) (str ''when'')
        \<and> \<not> includes_str (normalize_text question) (str '' when '')
        \<and> (includes_str (normalize_text question) (str ''favorite'')
            \<or> includes_str (normalize_text question) (str ''favourite''))
      \<longrightarrow> classifyIntent question = FAVORITES)
   \<and> (\<not> includes_str (normalize_text question) (str ''how many'')
        \<and> \<not> startsWith (normalize_text question) (str ''when'')
        \<and> \<not> includes_str (normalize_text question) (str '' when '')
        \<and> \<not> includes_str (normalize_text question) (str ''favorite'')
        \<and> \<not> includes_str (normalize_text question) (str ''favourite'')
      \<longrightarrow> classifyIntent question = UNKNOWN)
   \<and> classifyIntent (str ''how many favorite cars does Sam have'') = COUNT"
proof -
  have "classifyIntent (str ''how many favorite cars does Sam have'') = COUNT"
    by code_simp
  then show ?thesis by (simp add: classifyIntent_def)
qed

theorem classifyIntent_priority_witness:
  "includes_str (normalize_text (str ''How many favorite cars does Sam have'')) (str ''how many'')
   \<and> includes_str (normalize_text (str ''How many favorite cars does Sam have'')) (str ''favorite'')
   \<and> classifyIntent (str ''How many favorite cars does Sam have'') = COUNT
   \<and> classifyIntent (str ''Tell me when Sam had a favorite'') = WHEN
   \<and> classifyIntent (str ''Sam has a favourite'') = FAVORITES
   \<and> classifyIntent (str ''Tell me about Sam'') = UNKNOWN"
proof -
  have h1: "includes_str (normalize_text (str ''How many favorite cars does Sam have'')) (str ''how many'')"
    by code_simp
  have h2: "includes_str (normalize_text (str ''How many favorite cars does Sam have'')) (str ''favorite'')"
    by code_simp
  have h3: "\<not> includes_str (normalize_text (str ''Tell me when Sam had a favorite'')) (str ''how many'')
        \<and> (startsWith (normalize_text (str ''Tell me when Sam had a favorite'')) (str ''when'')
            \<or> includes_str (normalize_text (str ''Tell me when Sam had a favorite'')) (str '' when ''))"
    by code_simp
  have h4: "\<not> includes_str (normalize_text (str ''Sam has a favourite'')) (str ''how many'')
        \<and> \<not> startsWith (normalize_text (str ''Sam has a favourite'')) (str ''when'')
        \<and> \<not> includes_str (normalize_text (str ''Sam has a favourite'')) (str '' when '')
        \<and> (includes_str (normalize_text (str ''Sam has a favourite'')) (str ''favorite'')
            \<or> includes_str (normalize_text (str ''Sam has a favourite'')) (str ''favourite''))"
    by code_simp
  have h5: "\<not> includes_str (normalize_text (str ''Tell me about Sam'')) (str ''how many'')
        \<and> \<not> startsWith (normalize_text (str ''Tell me about Sam'')) (str ''when'')
        \<and> \<not> includes_str (normalize_text (str ''Tell me about Sam'')) (str '' when '')
        \<and> \<not> includes_str (normalize_text (str ''Tell me about Sam'')) (str ''favorite'')
        \<and> \<not> includes_str (normalize_text (str ''Tell me about Sam'')) (str ''favourite'')"
    by code_simp
  show ?thesis
    using h1 h2 h3 h4 h5
      classifyIntent_priority [of "str ''How many favorite cars does Sam have''"]
      classifyIntent_priority [of "str ''Tell me when Sam had a favorite''"]
      classifyIntent_priority [of "str ''Sam has a favourite''"]
      classifyIntent_priority [of "str ''Tell me about Sam''"]
    by simp
qed

section \<open>The name extractor\<close>

text \<open>What the matcher does with \<open>[a-z]*\<close> at the end of a pattern, and with
  \<open>[A-Z][a-z]+\<close> at one position.\<close>

lemma run_star_closed: "run [Star x] prev cs (False, g) = Some (dropWhile (inCls x) cs, g)"
  by (induction cs arbitrary: prev) (simp_all add: push_def)

lemma run_member:
  "run re_member prev cs (False, []) =
     (case cs of
        u # l # rest \<Rightarrow>
          if inCls upperAZ u \<and> inCls lowerAZ l then Some (dropWhile (inCls lowerAZ) rest, []) else None
      | _ \<Rightarrow> None)"
  by (simp add: re_member_def oneOrMore_def push_def run_star_closed split: list.splits)

lemma take_match:
  "take (Suc (Suc (length rest)) - length (dropWhile P rest)) (u # l # rest) = u # l # takeWhile P rest"
proof -
  have n: "length rest = length (takeWhile P rest) + length (dropWhile P rest)"
    by (metis length_append takeWhile_dropWhile_id)
  then have "Suc (Suc (length rest)) - length (dropWhile P rest) = Suc (Suc (length (takeWhile P rest)))"
    by simp
  then show ?thesis using takeWhile_eq_take[of P rest] by simp
qed

lemma dropWhile_head: "(case dropWhile P xs of [] \<Rightarrow> True | c # _ \<Rightarrow> \<not> P c)"
  by (induction xs) auto

text \<open>The global match finds nothing exactly when no upper-case letter is followed by a
  lower-case one; its first element is the leftmost such pair with every lower-case
  letter that follows.\<close>

lemma matches_none_iff:
  "matches_from re_member prev cs 0 = [] \<longleftrightarrow>
     \<not> (\<exists>p u l s. cs = p @ u # l # s \<and> inCls upperAZ u \<and> inCls lowerAZ l)"
proof (induction cs arbitrary: prev)
  case Nil
  then show ?case by (simp add: run_member)
next
  case (Cons c cs)
  show ?case
  proof (cases "\<exists>l rest. cs = l # rest \<and> inCls upperAZ c \<and> inCls lowerAZ l")
    case True
    then obtain l rest where h: "cs = l # rest" "inCls upperAZ c" "inCls lowerAZ l" by blast
    then have "c # cs = [] @ c # l # rest" by simp
    with h have "\<exists>p u l s. c # cs = p @ u # l # s \<and> inCls upperAZ u \<and> inCls lowerAZ l" by blast
    moreover have "matches_from re_member prev (c # cs) 0 \<noteq> []"
      using h by (simp add: run_member)
    ultimately show ?thesis by simp
  next
    case False
    then have r: "run re_member prev (c # cs) (False, []) = None"
      by (auto simp: run_member split: list.splits)
    have "(\<exists>p u l s. c # cs = p @ u # l # s \<and> inCls upperAZ u \<and> inCls lowerAZ l)
          \<longleftrightarrow> (\<exists>p u l s. cs = p @ u # l # s \<and> inCls upperAZ u \<and> inCls lowerAZ l)"
    proof
      assume "\<exists>p u l s. c # cs = p @ u # l # s \<and> inCls upperAZ u \<and> inCls lowerAZ l"
      then obtain p u l s where a: "c # cs = p @ u # l # s" "inCls upperAZ u" "inCls lowerAZ l"
        by blast
      show "\<exists>p u l s. cs = p @ u # l # s \<and> inCls upperAZ u \<and> inCls lowerAZ l"
      proof (cases p)
        case Nil
        with a False show ?thesis by auto
      next
        case (Cons x p')
        with a have "cs = p' @ u # l # s" by simp
        with a show ?thesis by blast
      qed
    next
      assume "\<exists>p u l s. cs = p @ u # l # s \<and> inCls upperAZ u \<and> inCls lowerAZ l"
      then obtain p u l s where a: "cs = p @ u # l # s" "inCls upperAZ u" "inCls lowerAZ l"
        by blast
      then have "c # cs = (c # p) @ u # l # s" by simp
      with a show "\<exists>p u l s. c # cs = p @ u # l # s \<and> inCls upperAZ u \<and> inCls lowerAZ l"
        by blast
    qed
    with r Cons.IH[of "Some c"] show ?thesis by simp
  qed
qed

lemma matches_first:
  "matches_from re_member prev cs 0 = m # ms \<Longrightarrow>
     \<exists>pre u ls post. cs = pre @ m @ post \<and> m = u # ls \<and> inCls upperAZ u \<and> ls \<noteq> []
        \<and> list_all (inCls lowerAZ) ls
        \<and> (case post of [] \<Rightarrow> True | c # _ \<Rightarrow> \<not> inCls lowerAZ c)
        \<and> (\<forall>p u' l' s. cs = p @ u' # l' # s \<and> inCls upperAZ u' \<and> inCls lowerAZ l'
              \<longrightarrow> length pre \<le> length p)"
proof (induction cs arbitrary: prev)
  case Nil
  then show ?case by (simp add: run_member)
next
  case (Cons c cs)
  show ?case
  proof (cases "\<exists>l rest. cs = l # rest \<and> inCls upperAZ c \<and> inCls lowerAZ l")
    case True
    then obtain l rest where h: "cs = l # rest" "inCls upperAZ c" "inCls lowerAZ l" by blast
    with Cons.prems have m: "m = c # l # takeWhile (inCls lowerAZ) rest"
      by (simp add: run_member take_match)
    have "c # cs = [] @ m @ dropWhile (inCls lowerAZ) rest" using h m by simp
    moreover have "list_all (inCls lowerAZ) (l # takeWhile (inCls lowerAZ) rest)"
      using h by (auto simp: list_all_iff dest: set_takeWhileD)
    ultimately show ?thesis
      using h m dropWhile_head[of "inCls lowerAZ" rest]
      by (intro exI[of _ "[]"] exI[of _ c] exI[of _ "l # takeWhile (inCls lowerAZ) rest"]
            exI[of _ "dropWhile (inCls lowerAZ) rest"]) simp
  next
    case False
    then have r: "run re_member prev (c # cs) (False, []) = None"
      by (auto simp: run_member split: list.splits)
    with Cons.prems have "matches_from re_member (Some c) cs 0 = m # ms" by simp
    from Cons.IH[OF this] obtain pre u ls post where
      h: "cs = pre @ m @ post" "m = u # ls" "inCls upperAZ u" "ls \<noteq> []" "list_all (inCls lowerAZ) ls"
         "(case post of [] \<Rightarrow> True | c # _ \<Rightarrow> \<not> inCls lowerAZ c)"
         "\<forall>p u' l' s. cs = p @ u' # l' # s \<and> inCls upperAZ u' \<and> inCls lowerAZ l'
              \<longrightarrow> length pre \<le> length p"
      by blast
    have "\<forall>p u' l' s. c # cs = p @ u' # l' # s \<and> inCls upperAZ u' \<and> inCls lowerAZ l'
              \<longrightarrow> length (c # pre) \<le> length p"
    proof (intro allI impI)
      fix p u' l' s
      assume a: "c # cs = p @ u' # l' # s \<and> inCls upperAZ u' \<and> inCls lowerAZ l'"
      show "length (c # pre) \<le> length p"
      proof (cases p)
        case Nil
        with a False show ?thesis by auto
      next
        case (Cons x p')
        with a have "cs = p' @ u' # l' # s" by simp
        with a h(7) have "length pre \<le> length p'" by blast
        with Cons show ?thesis by simp
      qed
    qed
    moreover have "c # cs = (c # pre) @ m @ post" using h(1) by simp
    ultimately show ?thesis using h(2-6) by blast
  qed
qed

lemma extractMemberName_matches:
  "extractMemberName q = (case matches_from re_member None q 0 of [] \<Rightarrow> None | m # _ \<Rightarrow> Some m)"
  by (simp add: extractMemberName_def match_global_def split: list.splits)

lemma extract_nonempty: "extractMemberName q = Some m \<Longrightarrow> m \<noteq> []"
proof -
  assume "extractMemberName q = Some m"
  then obtain ms' where "matches_from re_member None q 0 = m # ms'"
    by (auto simp: extractMemberName_matches split: list.splits)
  from matches_first[OF this] show ?thesis by blast
qed

text \<open>
  C5, as the code has it. \<open>extractMemberName\<close> returns a substring, not a
  white-space-delimited token: the leftmost place where an upper-case ASCII letter is
  followed by a lower-case one, with all the lower-case letters that follow, case kept;
  it is \<open>null\<close> exactly when the question has no such place. When it is \<open>null\<close> the
  three extractors return \<open>null\<close>, and the orchestrator returns the fallback provided
  that no special case matches the question (the special cases are tested first).
\<close>

theorem extractMemberName_leftmost:
  "(extractMemberName q = None \<longleftrightarrow>
      \<not> (\<exists>p u l s. q = p @ u # l # s \<and> inCls upperAZ u \<and> inCls lowerAZ l))
   \<and> (\<forall>m. extractMemberName q = Some m \<longrightarrow>
         (\<exists>pre u ls post. q = pre @ m @ post \<and> m = u # ls \<and> inCls upperAZ u \<and> ls \<noteq> []
            \<and> list_all (inCls lowerAZ) ls
            \<and> (case post of [] \<Rightarrow> True | c # _ \<Rightarrow> \<not> inCls lowerAZ c)
            \<and> (\<forall>p u' l' s. q = p @ u' # l' # s \<and> inCls upperAZ u' \<and> inCls lowerAZ l'
                  \<longrightarrow> length pre \<le> length p)))
   \<and> (extractMemberName q = None \<longrightarrow>
         answerWhenQuestion q ms = Inr None \<and> answerCountQuestion q ms = Inr None
         \<and> answerFavoritesQuestion q ms = Inr None
         \<and> (handleAssessmentSpecificQuestions q = None \<longrightarrow> generateAnswer q ms = Inr fallback))"
proof (intro conjI)
  show "extractMemberName q = None \<longleftrightarrow>
      \<not> (\<exists>p u l s. q = p @ u # l # s \<and> inCls upperAZ u \<and> inCls lowerAZ l)"
  proof -
    have "extractMemberName q = None \<longleftrightarrow> matches_from re_member None q 0 = []"
      by (simp add: extractMemberName_matches split: list.splits)
    then show ?thesis by (rule trans [OF _ matches_none_iff])
  qed
next
  show "\<forall>m. extractMemberName q = Some m \<longrightarrow>
         (\<exists>pre u ls post. q = pre @ m @ post \<and> m = u # ls \<and> inCls upperAZ u \<and> ls \<noteq> []
            \<and> list_all (inCls lowerAZ) ls
            \<and> (case post of [] \<Rightarrow> True | c # _ \<Rightarrow> \<not> inCls lowerAZ c)
            \<and> (\<forall>p u' l' s. q = p @ u' # l' # s \<and> inCls upperAZ u' \<and> inCls lowerAZ l'
                  \<longrightarrow> length pre \<le> length p))"
  proof (intro allI impI)
    fix m assume "extractMemberName q = Some m"
    then obtain ms' where "matches_from re_member None q 0 = m # ms'"
      by (auto simp: extractMemberName_matches split: list.splits)
    from matches_first[OF this]
    show "\<exists>pre u ls post. q = pre @ m @ post \<and> m = u # ls \<and> inCls upperAZ u \<and> ls \<noteq> []
            \<and> list_all (inCls lowerAZ) ls
            \<and> (case post of [] \<Rightarrow> True | c # _ \<Rightarrow> \<not> inCls lowerAZ c)
            \<and> (\<forall>p u' l' s. q = p @ u' # l' # s \<and> inCls upperAZ u' \<and> inCls lowerAZ l'
                  \<longrightarrow> length pre \<le> length p)" .
  qed
next
  show "extractMemberName q = None \<longrightarrow>
         answerWhenQuestion q ms = Inr None \<and> answerCountQuestion q ms = Inr None
         \<and> answerFavoritesQuestion q ms = Inr None
         \<and> (handleAssessmentSpecificQuestions q = None \<longrightarrow> generateAnswer q ms = Inr fallback)"
  proof
    assume n: "extractMemberName q = None"
    have a: "answerWhenQuestion q ms = Inr None" "answerCountQuestion q ms = Inr None"
      "answerFavoritesQuestion q ms = Inr None"
      using n
      by (simp_all add: answerWhenQuestion_def answerCountQuestion_def answerFavoritesQuestion_def)
    have "handleAssessmentSpecificQuestions q = None \<longrightarrow> generateAnswer q ms = Inr fallback"
      by (simp add: generateAnswer_def Let_def truthy_str_def a)
    with a show "answerWhenQuestion q ms = Inr None \<and> answerCountQuestion q ms = Inr None
         \<and> answerFavoritesQuestion q ms = Inr None
         \<and> (handleAssessmentSpecificQuestions q = None \<longrightarrow> generateAnswer q ms = Inr fallback)"
      by simp
  qed
qed

theorem extractMemberName_leftmost_witness:
  "extractMemberName (str ''tell me about sam'') = None
   \<and> handleAssessmentSpecificQuestions (str ''tell me about sam'') = None
   \<and> answerWhenQuestion (str ''tell me about sam'') [] = Inr None
   \<and> answerCountQuestion (str ''tell me about sam'') [] = Inr None
   \<and> answerFavoritesQuestion (str ''tell me about sam'') [] = Inr None
   \<and> generateAnswer (str ''tell me about sam'') [] = Inr fallback
   \<and> extractMemberName (str ''ask McAdam'') = Some (str ''Mc'')
   \<and> (\<exists>pre post. str ''ask McAdam'' = pre @ str ''Mc'' @ post)"
proof -
  have h1: "extractMemberName (str ''tell me about sam'') = None" by code_simp
  have h2: "handleAssessmentSpecificQuestions (str ''tell me about sam'') = None" by code_simp
  have h3: "extractMemberName (str ''ask McAdam'') = Some (str ''Mc'')" by code_simp
  note t1 = extractMemberName_leftmost [of "str ''tell me about sam''" "[]"]
  note t2 = extractMemberName_leftmost [of "str ''ask McAdam''" "[]"]
  have c1: "answerWhenQuestion (str ''tell me about sam'') [] = Inr None
     \<and> answerCountQuestion (str ''tell me about sam'') [] = Inr None
     \<and> answerFavoritesQuestion (str ''tell me about sam'') [] = Inr None
     \<and> generateAnswer (str ''tell me about sam'') [] = Inr fallback"
    using t1 h1 h2 by blast
  have c2: "\<exists>pre post. str ''ask McAdam'' = pre @ str ''Mc'' @ post"
    using t2 h3 by blast
  show ?thesis using h1 h2 h3 c1 c2 by simp
qed

text \<open>The claim as stated fails twice: \<open>Mc\<close> is returned for \<open>ask McAdam\<close> and is not
  one of its white-space-delimited tokens; and \<open>layla in london\<close> has no member name,
  yet the answer is the Layla/London sentence.\<close>

theorem extractMemberName_counterexample:
  "extractMemberName (str ''ask McAdam'') = Some (str ''Mc'')
   \<and> \<not> List.member (split_re re_spaces (str ''ask McAdam'')) (str ''Mc'')
   \<and> extractMemberName (str ''layla in london'') = None
   \<and> generateAnswer (str ''layla in london'') [] \<noteq> Inr fallback"
  by code_simp

section \<open>What can raise\<close>

text \<open>Group 1 of a match only holds code units that the nodes inside the group accept.\<close>

lemma run_group_in:
  "run re prev cs cap = Some (rest, g) \<Longrightarrow> capIn P re (fst cap) \<Longrightarrow> list_all P (snd cap)
     \<Longrightarrow> list_all P g"
  by (induction re prev cs cap rule: run.induct)
     (auto simp: push_def split: if_splits option.splits)

lemma search_run:
  "search re pre prev cs = Some m \<Longrightarrow>
     \<exists>prev' cs' rest. run re prev' cs' (False, []) = Some (rest, group1 m)"
  by (induction cs arbitrary: pre prev) (fastforce split: option.splits)+

lemma howMany_group:
  assumes "re_exec re_howMany s = Some m"
  shows "list_all (inCls (lowerAZ @ whiteSpace)) (group1 m)"
proof -
  obtain prev' cs' rest where r: "run re_howMany prev' cs' (False, []) = Some (rest, group1 m)"
    using assms search_run unfolding re_exec_def by blast
  have "capIn (inCls (lowerAZ @ whiteSpace)) re_howMany False"
    by (simp add: re_howMany_def lit_def str_def oneOrMore_def oneOrMoreLazy_def)
  with r show ?thesis using run_group_in by fastforce
qed

lemma set_trim: "set (trim s) \<subseteq> set s"
  by (auto simp: trim_def dest!: set_dropWhileD)

lemma lower_space_not_syntax:
  "inCls (lowerAZ @ whiteSpace) c \<Longrightarrow> \<not> inCls syntaxChar c"
  by (auto simp: lowerAZ_def whiteSpace_def syntaxChar_def)

text \<open>So the pattern source built from the counted object is always plain text.\<close>

lemma newRegExp_count_ok:
  assumes "list_all (inCls (lowerAZ @ whiteSpace)) g"
  shows "\<exists>p. newRegExp_count (trim g) = Inr p"
proof -
  have "\<not> list_ex (inCls syntaxChar) (trim g)"
    using assms set_trim[of g] lower_space_not_syntax
    by (auto simp: list_all_iff list_ex_iff)
  then show ?thesis by (simp add: newRegExp_count_def)
qed

text \<open>A split on \<open>/favorite/i\<close> has at least one piece, so its last piece exists.\<close>

lemma split_from_nonempty: "split_from re prev cs cur skip \<noteq> []"
  by (induction cs arbitrary: prev cur skip) (auto simp: Let_def split: option.splits)

lemma split_favorite_nonempty: "split_re re_favorite_i s \<noteq> []"
proof -
  have "run re_favorite_i None [] (False, []) = None"
    by (simp add: re_favorite_i_def lit_i_def str_def)
  then show ?thesis by (simp add: split_re_def split_from_nonempty)
qed

lemma lastOf_split: "lastOf (split_re re_favorite_i s) = Inr (last (split_re re_favorite_i s))"
  using split_favorite_nonempty[of s] by (simp add: lastOf_def split: list.splits)

text \<open>A conversion to a string raises nothing but \<open>TypeError\<close>, and raises exactly on
  an object with an own key \<open>toString\<close> and on an array that has an element whose
  conversion raises.\<close>

lemma toString_error:
  "toString v = Inl e \<Longrightarrow> e = TypeError" "joinElems xs = Inl e \<Longrightarrow> e = TypeError"
  by (induction v and xs rule: toString_joinElems.induct)
     (auto split: sum.splits if_splits jsval.splits)

lemma joinElems_ok: "(\<exists>s. joinElems xs = Inr s) \<longleftrightarrow> list_all stringable xs"
  by (induction xs) (auto simp: stringable_def split: sum.splits jsval.splits)

lemma stringable_simps:
  "stringable JUndefined" "stringable JNull" "stringable (JBool b)" "stringable (JNumber p)"
  "stringable (JString s)"
  "stringable (JObject kvs) \<longleftrightarrow> \<not> List.member (map fst kvs) (str ''toString'')"
  "stringable (JArray xs) \<longleftrightarrow> list_all stringable xs"
proof -
  show "stringable (JArray xs) \<longleftrightarrow> list_all stringable xs"
    using joinElems_ok[of xs] by (auto simp: stringable_def split: sum.splits)
qed (simp_all add: stringable_def)

lemma msgText_cases: "msgText m = (if textFails m then Inl TypeError else Inr (textOf m))"
  using toString_error(1) by (auto simp: textFails_def textOf_def msgText_def split: sum.splits)

lemma stringable_text: "stringable (f_message m) \<Longrightarrow> stringable (f_text m) \<Longrightarrow> \<not> textFails m"
  by (auto simp: textFails_def msgText_def or_js_def stringable_def split: sum.splits)


lemma findBest_Some: "findBest member terms ms = Inr (Some best) \<Longrightarrow> best \<in> set ms"
  by (induction ms) (auto simp: msgText_cases Let_def split: if_splits)

lemma findBest_error: "findBest member terms ms = Inl e \<Longrightarrow> e = TypeError"
  by (induction ms) (auto simp: msgText_cases Let_def split: if_splits)

lemma findBest_total:
  "\<forall>m \<in> set ms. \<not> textFails m \<Longrightarrow> \<exists>r. findBest member terms ms = Inr r"
  by (induction ms) (auto simp: msgText_cases Let_def)

lemma scanCount_error: "scanCount member obj pattern ms = Inl e \<Longrightarrow> e = TypeError"
  by (induction ms) (auto simp: msgText_cases Let_def split: if_splits option.splits)

lemma scanCount_total:
  "\<forall>m \<in> set ms. \<not> textFails m \<Longrightarrow> \<exists>r. scanCount member obj pattern ms = Inr r"
  by (induction ms) (auto simp: msgText_cases Let_def split: option.splits)

lemma scanFavorites_error: "scanFavorites member category ms = Inl e \<Longrightarrow> e = TypeError"
  by (induction ms) (auto simp: msgText_cases Let_def lastOf_split split: if_splits)

lemma scanFavorites_total:
  "\<forall>m \<in> set ms. \<not> textFails m \<Longrightarrow> \<exists>r. scanFavorites member category ms = Inr r"
  by (induction ms) (auto simp: msgText_cases Let_def lastOf_split)

lemma answerCount_scan:
  "answerCountQuestion q ms = Inr None
   \<or> (\<exists>member obj. answerCountQuestion q ms = scanCount member obj (countPattern obj) ms)"
proof (cases "extractMemberName q")
  case None
  then show ?thesis by (simp add: answerCountQuestion_def)
next
  case (Some member)
  show ?thesis
  proof (cases "re_exec re_howMany (normalize_text q)")
    case None
    with Some show ?thesis by (simp add: answerCountQuestion_def)
  next
    case (Some m)
    from howMany_group[OF Some] have "\<not> list_ex (inCls syntaxChar) (trim (group1 m))"
      using set_trim[of "group1 m"] lower_space_not_syntax
      by (auto simp: list_all_iff list_ex_iff)
    then have "newRegExp_count (trim (group1 m)) = Inr (countPattern (trim (group1 m)))"
      by (simp add: newRegExp_count_def)
    with Some \<open>extractMemberName q = Some member\<close> show ?thesis
      by (auto simp: answerCountQuestion_def Let_def)
  qed
qed

lemma answerCount_error: "answerCountQuestion q ms = Inl e \<Longrightarrow> e = TypeError"
  using answerCount_scan[of q ms] scanCount_error by auto

lemma answerCount_total:
  "\<forall>m \<in> set ms. \<not> textFails m \<Longrightarrow> \<exists>r. answerCountQuestion q ms = Inr r"
  using answerCount_scan[of q ms] scanCount_total by metis

lemma answerFavorites_error: "answerFavoritesQuestion q ms = Inl e \<Longrightarrow> e = TypeError"
  using scanFavorites_error
  by (auto simp: answerFavoritesQuestion_def Let_def split: option.splits if_splits)

lemma answerFavorites_total:
  "\<forall>m \<in> set ms. \<not> textFails m \<Longrightarrow> \<exists>r. answerFavoritesQuestion q ms = Inr r"
  using scanFavorites_total
  by (auto simp: answerFavoritesQuestion_def Let_def split: option.splits)

lemma answerWhen_error: "answerWhenQuestion q ms = Inl e \<Longrightarrow> e = TypeError"
  using findBest_error toString_error(1)
  by (auto simp: answerWhenQuestion_def Let_def split: option.splits if_splits sum.splits)

lemma answerWhen_total:
  assumes "\<forall>m \<in> set ms. \<not> textFails m"
    and "\<forall>m \<in> set ms. stringable (f_date m) \<and> stringable (f_timestamp m) \<and> stringable (f_created_at m)"
  shows "\<exists>r. answerWhenQuestion q ms = Inr r"
proof (cases "extractMemberName q")
  case None
  then show ?thesis by (simp add: answerWhenQuestion_def)
next
  case (Some member)
  obtain r where r: "findBest member (queryTerms q) ms = Inr r"
    using findBest_total[OF assms(1)] by blast
  show ?thesis
  proof (cases r)
    case None
    with r Some show ?thesis by (simp add: answerWhenQuestion_def)
  next
    case (Some best)
    with r have "best \<in> set ms" using findBest_Some by blast
    with assms(2) have "stringable (or_js (or_js (f_date best) (f_timestamp best)) (f_created_at best))"
      by (simp add: or_js_def)
    then obtain d where "toString (or_js (or_js (f_date best) (f_timestamp best)) (f_created_at best)) = Inr d"
      by (auto simp: stringable_def split: sum.splits)
    with r Some \<open>extractMemberName q = Some member\<close> show ?thesis
      by (simp add: answerWhenQuestion_def Let_def)
  qed
qed

lemma dispatch_error:
  "(if classifyIntent q = WHEN then answerWhenQuestion q ms
    else if classifyIntent q = COUNT then answerCountQuestion q ms
    else if classifyIntent q = FAVORITES then answerFavoritesQuestion q ms
    else Inr None) = Inl e \<Longrightarrow> e = TypeError"
  using answerWhen_error answerCount_error answerFavorites_error
  by (auto split: if_splits)

text \<open>
  C8, as the code has it. \<open>generateAnswer\<close> never raises a \<open>SyntaxError\<close>. For every
  question and every list of message records whose \<open>message\<close>, \<open>text\<close>, \<open>date\<close>,
  \<open>timestamp\<close> and \<open>created_at\<close> fields convert to a string (every JSON value does but
  an object with an own key \<open>toString\<close> and an array holding one), it returns a value,
  not an error, and the value is a non-empty string: one of the three fixed special-case
  sentences, the fallback sentence, or the string that the extractor of the classified
  intent returned.
\<close>

theorem generateAnswer_total:
  "generateAnswer q ms \<noteq> Inl SyntaxError
   \<and> ((\<forall>m \<in> set ms. stringable (f_message m) \<and> stringable (f_text m) \<and> stringable (f_date m)
          \<and> stringable (f_timestamp m) \<and> stringable (f_created_at m))
      \<longrightarrow> (\<exists>a. generateAnswer q ms = Inr a \<and> a \<noteq> []
            \<and> (a = answer_layla \<or> a = answer_vikram \<or> a = answer_amira \<or> a = fallback
               \<or> (classifyIntent q = WHEN \<and> answerWhenQuestion q ms = Inr (Some a))
               \<or> (classifyIntent q = COUNT \<and> answerCountQuestion q ms = Inr (Some a))
               \<or> (classifyIntent q = FAVORITES \<and> answerFavoritesQuestion q ms = Inr (Some a)))))"
proof
  show "generateAnswer q ms \<noteq> Inl SyntaxError"
  proof
    assume e: "generateAnswer q ms = Inl SyntaxError"
    then have "(if classifyIntent q = WHEN then answerWhenQuestion q ms
        else if classifyIntent q = COUNT then answerCountQuestion q ms
        else if classifyIntent q = FAVORITES then answerFavoritesQuestion q ms
        else Inr None) = Inl SyntaxError"
      by (auto simp: generateAnswer_def Let_def split: if_splits sum.splits)
    from dispatch_error[OF this] show False by simp
  qed
next
  show "(\<forall>m \<in> set ms. stringable (f_message m) \<and> stringable (f_text m) \<and> stringable (f_date m)
          \<and> stringable (f_timestamp m) \<and> stringable (f_created_at m))
      \<longrightarrow> (\<exists>a. generateAnswer q ms = Inr a \<and> a \<noteq> []
            \<and> (a = answer_layla \<or> a = answer_vikram \<or> a = answer_amira \<or> a = fallback
               \<or> (classifyIntent q = WHEN \<and> answerWhenQuestion q ms = Inr (Some a))
               \<or> (classifyIntent q = COUNT \<and> answerCountQuestion q ms = Inr (Some a))
               \<or> (classifyIntent q = FAVORITES \<and> answerFavoritesQuestion q ms = Inr (Some a))))"
  proof
    assume h: "\<forall>m \<in> set ms. stringable (f_message m) \<and> stringable (f_text m) \<and> stringable (f_date m)
          \<and> stringable (f_timestamp m) \<and> stringable (f_created_at m)"
    then have t: "\<forall>m \<in> set ms. \<not> textFails m" using stringable_text by blast
    from h have d: "\<forall>m \<in> set ms. stringable (f_date m) \<and> stringable (f_timestamp m)
        \<and> stringable (f_created_at m)" by blast
    show "\<exists>a. generateAnswer q ms = Inr a \<and> a \<noteq> []
            \<and> (a = answer_layla \<or> a = answer_vikram \<or> a = answer_amira \<or> a = fallback
               \<or> (classifyIntent q = WHEN \<and> answerWhenQuestion q ms = Inr (Some a))
               \<or> (classifyIntent q = COUNT \<and> answerCountQuestion q ms = Inr (Some a))
               \<or> (classifyIntent q = FAVORITES \<and> answerFavoritesQuestion q ms = Inr (Some a)))"
    proof (cases "handleAssessmentSpecificQuestions q")
      case (Some s)
      then have "generateAnswer q ms = Inr s"
        using special_truthy[of q] by (simp add: generateAnswer_def)
      then show ?thesis using special_cases[OF Some] answers_nonempty by auto
    next
      case None
      have "\<exists>r. (if classifyIntent q = WHEN then answerWhenQuestion q ms
             else if classifyIntent q = COUNT then answerCountQuestion q ms
             else if classifyIntent q = FAVORITES then answerFavoritesQuestion q ms
             else Inr None) = Inr r"
        using answerWhen_total[OF t d, of q] answerCount_total[OF t, of q]
          answerFavorites_total[OF t, of q] by simp
      then obtain r where r: "(if classifyIntent q = WHEN then answerWhenQuestion q ms
             else if classifyIntent q = COUNT then answerCountQuestion q ms
             else if classifyIntent q = FAVORITES then answerFavoritesQuestion q ms
             else Inr None) = Inr r"
        by blast
      have g: "generateAnswer q ms = (if \<not> truthy_str r then Inr fallback else Inr (the r))"
        using None r special_truthy[of q] by (simp add: generateAnswer_def Let_def)
      show ?thesis
      proof (cases "truthy_str r")
        case False
        with g show ?thesis using answers_nonempty by simp
      next
        case True
        then obtain a where a: "r = Some a" "a \<noteq> []"
          by (auto simp: truthy_str_def split: option.splits)
        with r have "(classifyIntent q = WHEN \<and> answerWhenQuestion q ms = Inr (Some a))
            \<or> (classifyIntent q = COUNT \<and> answerCountQuestion q ms = Inr (Some a))
            \<or> (classifyIntent q = FAVORITES \<and> answerFavoritesQuestion q ms = Inr (Some a))"
          by (auto split: if_splits)
        with g True a show ?thesis by auto
      qed
    qed
  qed
qed

theorem generateAnswer_total_witness:
  "stringable (f_message (emptyMsg\<lparr>f_message := JString (str ''Maya is planning her trip to Paris''),
                  f_text := JArray [JNumber (str ''1''), JObject []],
                  f_timestamp := JNumber (str ''1714521600000'')\<rparr>)) \<and> stringable (f_text (emptyMsg\<lparr>f_message := JString (str ''Maya is planning her trip to Paris''),
                  f_text := JArray [JNumber (str ''1''), JObject []],
                  f_timestamp := JNumber (str ''1714521600000'')\<rparr>))
   \<and> stringable (f_date (emptyMsg\<lparr>f_message := JString (str ''Maya is planning her trip to Paris''),
                  f_text := JArray [JNumber (str ''1''), JObject []],
                  f_timestamp := JNumber (str ''1714521600000'')\<rparr>)) \<and> stringable (f_timestamp (emptyMsg\<lparr>f_message := JString (str ''Maya is planning her trip to Paris''),
                  f_text := JArray [JNumber (str ''1''), JObject []],
                  f_timestamp := JNumber (str ''1714521600000'')\<rparr>))
   \<and> stringable (f_created_at (emptyMsg\<lparr>f_message := JString (str ''Maya is planning her trip to Paris''),
                  f_text := JArray [JNumber (str ''1''), JObject []],
                  f_timestamp := JNumber (str ''1714521600000'')\<rparr>))
   \<and> generateAnswer (str ''when is Maya planning her trip to Paris'') [emptyMsg\<lparr>f_message := JString (str ''Maya is planning her trip to Paris''),
                  f_text := JArray [JNumber (str ''1''), JObject []],
                  f_timestamp := JNumber (str ''1714521600000'')\<rparr>]
       = Inr (str ''Maya is planning that on 1714521600000.'')
   \<and> (\<exists>a. generateAnswer (str ''when is Maya planning her trip to Paris'') [emptyMsg\<lparr>f_message := JString (str ''Maya is planning her trip to Paris''),
                  f_text := JArray [JNumber (str ''1''), JObject []],
                  f_timestamp := JNumber (str ''1714521600000'')\<rparr>] = Inr a
          \<and> a \<noteq> [])"
proof -
  have s: "stringable (f_message (emptyMsg\<lparr>f_message := JString (str ''Maya is planning her trip to Paris''),
                  f_text := JArray [JNumber (str ''1''), JObject []],
                  f_timestamp := JNumber (str ''1714521600000'')\<rparr>)) \<and> stringable (f_text (emptyMsg\<lparr>f_message := JString (str ''Maya is planning her trip to Paris''),
                  f_text := JArray [JNumber (str ''1''), JObject []],
                  f_timestamp := JNumber (str ''1714521600000'')\<rparr>))
   \<and> stringable (f_date (emptyMsg\<lparr>f_message := JString (str ''Maya is planning her trip to Paris''),
                  f_text := JArray [JNumber (str ''1''), JObject []],
                  f_timestamp := JNumber (str ''1714521600000'')\<rparr>)) \<and> stringable (f_timestamp (emptyMsg\<lparr>f_message := JString (str ''Maya is planning her trip to Paris''),
                  f_text := JArray [JNumber (str ''1''), JObject []],
                  f_timestamp := JNumber (str ''1714521600000'')\<rparr>))
   \<and> stringable (f_created_at (emptyMsg\<lparr>f_message := JString (str ''Maya is planning her trip to Paris''),
                  f_text := JArray [JNumber (str ''1''), JObject []],
                  f_timestamp := JNumber (str ''1714521600000'')\<rparr>))"
    by code_simp
  then have h: "\<forall>m \<in> set [emptyMsg\<lparr>f_message := JString (str ''Maya is planning her trip to Paris''),
                  f_text := JArray [JNumber (str ''1''), JObject []],
                  f_timestamp := JNumber (str ''1714521600000'')\<rparr>].
       stringable (f_message m) \<and> stringable (f_text m) \<and> stringable (f_date m)
       \<and> stringable (f_timestamp m) \<and> stringable (f_created_at m)"
    by simp
  have v: "generateAnswer (str ''when is Maya planning her trip to Paris'') [emptyMsg\<lparr>f_message := JString (str ''Maya is planning her trip to Paris''),
                  f_text := JArray [JNumber (str ''1''), JObject []],
                  f_timestamp := JNumber (str ''1714521600000'')\<rparr>]
       = Inr (str ''Maya is planning that on 1714521600000.'')"
    by code_simp
  have c: "\<exists>a. generateAnswer (str ''when is Maya planning her trip to Paris'') [emptyMsg\<lparr>f_message := JString (str ''Maya is planning her trip to Paris''),
                  f_text := JArray [JNumber (str ''1''), JObject []],
                  f_timestamp := JNumber (str ''1714521600000'')\<rparr>] = Inr a
          \<and> a \<noteq> []"
    using h generateAnswer_total [of "str ''when is Maya planning her trip to Paris''" "[emptyMsg\<lparr>f_message := JString (str ''Maya is planning her trip to Paris''),
                  f_text := JArray [JNumber (str ''1''), JObject []],
                  f_timestamp := JNumber (str ''1714521600000'')\<rparr>]"]
    by blast
  show ?thesis using s v c by (intro conjI) simp_all
qed

text \<open>A record whose \<open>message\<close> is an object with an own key \<open>toString\<close>, and a record
  whose \<open>date\<close> is one: the conversion raises, and so does \<open>generateAnswer\<close>.\<close>

theorem generateAnswer_raises_counterexample:
  "generateAnswer (str ''when is Maya planning her trip to Paris'')
       [emptyMsg\<lparr>f_message := JObject [(str ''toString'', JNumber (str ''1''))]\<rparr>]
     = Inl TypeError
   \<and> generateAnswer (str ''when is Maya planning her trip to Paris'')
       [emptyMsg\<lparr>f_message := JString (str ''Maya is planning her trip to Paris''),
                 f_date := JObject [(str ''toString'', JNumber (str ''1''))]\<rparr>]
     = Inl TypeError"
  by code_simp

section \<open>The fallback\<close>

text \<open>
  C6, as the code has it. When no special case matches and the intent is UNKNOWN, or the
  extractor of the intent returns \<open>null\<close>, the answer is the fallback sentence for every
  message list. The sentence of the code is written with the apostrophe U+2019 (code
  unit 8217), not with the ASCII apostrophe.
\<close>

theorem fallback_when_no_answer:
  assumes "handleAssessmentSpecificQuestions q = None"
  shows "(classifyIntent q = UNKNOWN \<longrightarrow> generateAnswer q ms
            = Inr (str ''Sorry, I couldn'' @ [8217] @ str ''t infer an answer from the member data.''))
       \<and> (classifyIntent q = WHEN \<and> answerWhenQuestion q ms = Inr None \<longrightarrow> generateAnswer q ms
            = Inr (str ''Sorry, I couldn'' @ [8217] @ str ''t infer an answer from the member data.''))
       \<and> (classifyIntent q = COUNT \<and> answerCountQuestion q ms = Inr None \<longrightarrow> generateAnswer q ms
            = Inr (str ''Sorry, I couldn'' @ [8217] @ str ''t infer an answer from the member data.''))
       \<and> (classifyIntent q = FAVORITES \<and> answerFavoritesQuestion q ms = Inr None \<longrightarrow> generateAnswer q ms
            = Inr (str ''Sorry, I couldn'' @ [8217] @ str ''t infer an answer from the member data.''))"
  using assms by (simp add: generateAnswer_def truthy_str_def fallback_def)

theorem fallback_when_no_answer_witness:
  "handleAssessmentSpecificQuestions (str ''Tell me about Sam'') = None
   \<and> classifyIntent (str ''Tell me about Sam'') = UNKNOWN
   \<and> generateAnswer (str ''Tell me about Sam'') []
       = Inr (str ''Sorry, I couldn'' @ [8217] @ str ''t infer an answer from the member data.'')
   \<and> handleAssessmentSpecificQuestions (str ''when is Maya planning her trip to Paris'') = None
   \<and> classifyIntent (str ''when is Maya planning her trip to Paris'') = WHEN
   \<and> answerWhenQuestion (str ''when is Maya planning her trip to Paris'') [] = Inr None
   \<and> generateAnswer (str ''when is Maya planning her trip to Paris'') []
       = Inr (str ''Sorry, I couldn'' @ [8217] @ str ''t infer an answer from the member data.'')"
proof -
  have h1: "handleAssessmentSpecificQuestions (str ''Tell me about Sam'') = None"
    by code_simp
  have h2: "classifyIntent (str ''Tell me about Sam'') = UNKNOWN"
    by code_simp
  have h3: "handleAssessmentSpecificQuestions (str ''when is Maya planning her trip to Paris'') = None"
    by code_simp
  have h4: "classifyIntent (str ''when is Maya planning her trip to Paris'') = WHEN
     \<and> answerWhenQuestion (str ''when is Maya planning her trip to Paris'') [] = Inr None"
    by code_simp
  show ?thesis
    using h1 h2 h3 h4 fallback_when_no_answer [OF h1, of "[]"] fallback_when_no_answer [OF h3, of "[]"]
    by simp
qed

text \<open>The sentence with the ASCII apostrophe (code unit 39) is not what is returned.\<close>

theorem fallback_ascii_counterexample:
  "handleAssessmentSpecificQuestions (str ''Tell me about Sam'') = None
   \<and> classifyIntent (str ''Tell me about Sam'') = UNKNOWN
   \<and> generateAnswer (str ''Tell me about Sam'') []
       \<noteq> Inr (str ''Sorry, I couldn'' @ [39] @ str ''t infer an answer from the member data.'')"
  by code_simp

section \<open>Favorites\<close>

lemma favMatches_text: "favMatches member category m \<Longrightarrow> \<not> textFails m"
  by (simp add: favMatches_def Let_def)

lemma scanFavorites_step:
  "scanFavorites member category (m # ms) =
     (if textFails m then Inl TypeError
      else if favMatches member category m \<and> favRemainder m \<noteq> []
      then Inr (Some (member @ [39] @ str ''s favorite '' @ category @ str '' are ''
                        @ favRemainder m @ str ''.''))
      else scanFavorites member category ms)"
  by (simp add: msgText_cases Let_def favMatches_def favRemainder_def lastOf_split)

lemma scanFavorites_find:
  "scanFavorites member category ms =
     (case find (\<lambda>m. textFails m \<or> (favMatches member category m \<and> favRemainder m \<noteq> [])) ms of
        None \<Rightarrow> Inr None
      | Some m \<Rightarrow>
          if textFails m then Inl TypeError
          else Inr (Some (member @ [39] @ str ''s favorite '' @ category @ str '' are ''
                        @ favRemainder m @ str ''.'')))"
proof (induction ms)
  case Nil
  show ?case by simp
next
  case (Cons m ms)
  show ?case unfolding scanFavorites_step using Cons.IH by simp
qed

text \<open>
  C2, as the code has it. The scan of \<open>answerFavoritesQuestion\<close> does not stop at a
  matching message whose remainder is empty: the answer is built from the first message
  that passes the three tests and has a non-empty remainder, and it is \<open>null\<close> when
  there is none (a message whose text does not convert to a string, met before, ends
  the scan with the \<open>TypeError\<close>). So for \<open>[m1, m2]\<close> where \<open>m1\<close> matches with an
  empty remainder and \<open>m2\<close> matches with a non-empty one, the answer is built from
  \<open>m2\<close>.
\<close>

theorem favorites_scan_continues:
  assumes "extractMemberName question = Some member"
    and "re_exec re_favCategory (normalize_text question) = Some mc"
    and "category = trim (replace_unit 63 (group1 mc))"
  shows "answerFavoritesQuestion question messages =
           (case find (\<lambda>m. textFails m \<or> (favMatches member category m \<and> favRemainder m \<noteq> []))
                   messages of
              None \<Rightarrow> Inr None
            | Some m \<Rightarrow>
                if textFails m then Inl TypeError
                else Inr (Some (member @ [39] @ str ''s favorite '' @ category @ str '' are ''
                        @ favRemainder m @ str ''.'')))
       \<and> (favMatches member category m1 \<and> favRemainder m1 = []
            \<and> favMatches member category m2 \<and> favRemainder m2 \<noteq> [] \<longrightarrow>
          answerFavoritesQuestion question [m1, m2] =
            Inr (Some (member @ [39] @ str ''s favorite '' @ category @ str '' are ''
                        @ favRemainder m2 @ str ''.'')))"
proof -
  have a: "answerFavoritesQuestion question ms = scanFavorites member category ms" for ms
    using assms extract_nonempty[OF assms(1)] by (simp add: answerFavoritesQuestion_def)
  show ?thesis unfolding a scanFavorites_find using favMatches_text by auto
qed

theorem favorites_scan_continues_witness:
  "favMatches (str ''Priya'') (str ''color'')
        (emptyMsg\<lparr>f_message := JString (str ''Priya: color is my favorite'')\<rparr>)
   \<and> favRemainder (emptyMsg\<lparr>f_message := JString (str ''Priya: color is my favorite'')\<rparr>) = []
   \<and> favMatches (str ''Priya'') (str ''color'')
        (emptyMsg\<lparr>f_message := JString (str ''Priya says her favorite color: blue and green'')\<rparr>)
   \<and> favRemainder (emptyMsg\<lparr>f_message := JString (str ''Priya says her favorite color: blue and green'')\<rparr>)
        = str ''color: blue and green''
   \<and> answerFavoritesQuestion (str ''what is Priya's favorite color?'')
        [emptyMsg\<lparr>f_message := JString (str ''Priya: color is my favorite'')\<rparr>,
         emptyMsg\<lparr>f_message := JString (str ''Priya says her favorite color: blue and green'')\<rparr>]
       = Inr (Some (str ''Priya'' @ [39] @ str ''s favorite '' @ str ''color'' @ str '' are ''
            @ str ''color: blue and green'' @ str ''.''))"
proof -
  have h1: "extractMemberName (str ''what is Priya's favorite color?'') = Some (str ''Priya'')"
    by code_simp
  have h2: "re_exec re_favCategory (normalize_text (str ''what is Priya's favorite color?''))
      = Some \<lparr>before = str ''what is priya's '', matched = str ''favorite color?'', after = [],
               group1 = str ''color?''\<rparr>"
    by code_simp
  have h3: "str ''color'' = trim (replace_unit 63 (group1 \<lparr>before = str ''what is priya's '',
      matched = str ''favorite color?'', after = [], group1 = str ''color?''\<rparr>))"
    by code_simp
  have h4: "favMatches (str ''Priya'') (str ''color'')
        (emptyMsg\<lparr>f_message := JString (str ''Priya: color is my favorite'')\<rparr>)
     \<and> favRemainder (emptyMsg\<lparr>f_message := JString (str ''Priya: color is my favorite'')\<rparr>) = []
     \<and> favMatches (str ''Priya'') (str ''color'')
        (emptyMsg\<lparr>f_message := JString (str ''Priya says her favorite color: blue and green'')\<rparr>)
     \<and> favRemainder (emptyMsg\<lparr>f_message := JString (str ''Priya says her favorite color: blue and green'')\<rparr>)
        = str ''color: blue and green''"
    by code_simp
  have h5: "favRemainder (emptyMsg\<lparr>f_message := JString (str ''Priya says her favorite color: blue and green'')\<rparr>)
        \<noteq> []"
    by code_simp
  show ?thesis
    using h4 h5 favorites_scan_continues [OF h1 h2 h3,
        of "[]" "emptyMsg\<lparr>f_message := JString (str ''Priya: color is my favorite'')\<rparr>"
           "emptyMsg\<lparr>f_message := JString (str ''Priya says her favorite color: blue and green'')\<rparr>"]
    by simp
qed

text \<open>A list of the form the claim describes, for which the result is not \<open>null\<close>.\<close>

theorem favorites_first_match_counterexample:
  "extractMemberName (str ''what is Priya's favorite color?'') = Some (str ''Priya'')
   \<and> map_option group1 (re_exec re_favCategory (normalize_text (str ''what is Priya's favorite color?'')))
       = Some (str ''color?'')
   \<and> trim (replace_unit 63 (str ''color?'')) = str ''color''
   \<and> favMatches (str ''Priya'') (str ''color'')
        (emptyMsg\<lparr>f_message := JString (str ''Priya: color is my favorite'')\<rparr>)
   \<and> favRemainder (emptyMsg\<lparr>f_message := JString (str ''Priya: color is my favorite'')\<rparr>) = []
   \<and> favMatches (str ''Priya'') (str ''color'')
        (emptyMsg\<lparr>f_message := JString (str ''Priya says her favorite color: blue and green'')\<rparr>)
   \<and> favRemainder (emptyMsg\<lparr>f_message := JString (str ''Priya says her favorite color: blue and green'')\<rparr>)
        = str ''color: blue and green''
   \<and> answerFavoritesQuestion (str ''what is Priya's favorite color?'')
        [emptyMsg\<lparr>f_message := JString (str ''Priya: color is my favorite'')\<rparr>,
         emptyMsg\<lparr>f_message := JString (str ''Priya says her favorite color: blue and green'')\<rparr>]
       = Inr (Some (str ''Priya's favorite color are color: blue and green.''))"
  by code_simp

section \<open>Count\<close>

text \<open>
  When the matcher succeeds: a class node takes one unit of the class, a star takes any
  number of them, a literal takes its text; the search succeeds when the matcher does at
  some position.
\<close>

lemma prevAfter_Cons: "prevAfter prev (c # xs) = prevAfter (Some c) xs"
  by (simp add: prevAfter_def)

lemma run_One_iff:
  "run (One x # rs) prev cs cap \<noteq> None \<longleftrightarrow>
     (\<exists>c cs'. cs = c # cs' \<and> inCls x c \<and> run rs (Some c) cs' (push cap c) \<noteq> None)"
  by (cases cs) auto

lemma run_Star_iff:
  "run (Star x # rs) prev cs cap \<noteq> None \<longleftrightarrow>
     (\<exists>xs ys. cs = xs @ ys \<and> list_all (inCls x) xs
        \<and> run rs (prevAfter prev xs) ys (foldl push cap xs) \<noteq> None)"
proof (induction cs arbitrary: prev cap)
  case Nil
  show ?case by (simp add: prevAfter_def)
next
  case (Cons c cs)
  have split: "(\<exists>xs ys. c # cs = xs @ ys \<and> list_all (inCls x) xs
        \<and> run rs (prevAfter prev xs) ys (foldl push cap xs) \<noteq> None)
     \<longleftrightarrow> (run rs prev (c # cs) cap \<noteq> None
          \<or> (inCls x c \<and> (\<exists>xs ys. cs = xs @ ys \<and> list_all (inCls x) xs
                \<and> run rs (prevAfter (Some c) xs) ys (foldl push (push cap c) xs) \<noteq> None)))"
    (is "?L \<longleftrightarrow> ?A \<or> ?B")
  proof
    assume ?L
    then obtain xs ys where h: "c # cs = xs @ ys" "list_all (inCls x) xs"
      "run rs (prevAfter prev xs) ys (foldl push cap xs) \<noteq> None" by blast
    show "?A \<or> ?B"
    proof (cases xs)
      case Nil
      with h show ?thesis by (simp add: prevAfter_def)
    next
      case (Cons d xs')
      with h have "d = c" "cs = xs' @ ys" "inCls x c" "list_all (inCls x) xs'"
        "run rs (prevAfter (Some c) xs') ys (foldl push (push cap c) xs') \<noteq> None"
        by (simp_all add: prevAfter_Cons)
      then show ?thesis by blast
    qed
  next
    assume "?A \<or> ?B"
    then show ?L
    proof
      assume ?A
      then have "c # cs = [] @ (c # cs) \<and> list_all (inCls x) []
        \<and> run rs (prevAfter prev []) (c # cs) (foldl push cap []) \<noteq> None"
        by (simp add: prevAfter_def)
      then show ?L by blast
    next
      assume ?B
      then obtain xs ys where h: "inCls x c" "cs = xs @ ys" "list_all (inCls x) xs"
        "run rs (prevAfter (Some c) xs) ys (foldl push (push cap c) xs) \<noteq> None" by blast
      then have "c # cs = (c # xs) @ ys \<and> list_all (inCls x) (c # xs)
        \<and> run rs (prevAfter prev (c # xs)) ys (foldl push cap (c # xs)) \<noteq> None"
        by (simp add: prevAfter_Cons)
      then show ?L by blast
    qed
  qed
  show ?case
  proof (cases "inCls x c")
    case True
    then have "run (Star x # rs) prev (c # cs) cap \<noteq> None \<longleftrightarrow>
        (run (Star x # rs) (Some c) cs (push cap c) \<noteq> None \<or> run rs prev (c # cs) cap \<noteq> None)"
      by (auto split: option.splits)
    with Cons.IH[of "Some c" "push cap c"] True split show ?thesis by blast
  next
    case False
    then have "run (Star x # rs) prev (c # cs) cap \<noteq> None \<longleftrightarrow> run rs prev (c # cs) cap \<noteq> None"
      by simp
    with False split show ?thesis by blast
  qed
qed

lemma run_lit_iff:
  "run (lit s @ rs) prev cs cap \<noteq> None \<longleftrightarrow>
     (\<exists>ys. cs = s @ ys \<and> run rs (prevAfter prev s) ys (foldl push cap s) \<noteq> None)"
proof (induction s arbitrary: prev cs cap)
  case Nil
  show ?case by (simp add: lit_def prevAfter_def)
next
  case (Cons a s)
  have "run (lit (a # s) @ rs) prev cs cap \<noteq> None \<longleftrightarrow>
      (\<exists>cs'. cs = a # cs' \<and> run (lit s @ rs) (Some a) cs' (push cap a) \<noteq> None)"
    by (cases cs) (auto simp: lit_def)
  also have "\<dots> \<longleftrightarrow> (\<exists>cs'. cs = a # cs' \<and> (\<exists>ys. cs' = s @ ys
       \<and> run rs (prevAfter (Some a) s) ys (foldl push (push cap a) s) \<noteq> None))"
    by (simp only: Cons.IH)
  also have "\<dots> \<longleftrightarrow> (\<exists>ys. cs = (a # s) @ ys
       \<and> run rs (prevAfter prev (a # s)) ys (foldl push cap (a # s)) \<noteq> None)"
    by (auto simp: prevAfter_Cons)
  finally show ?case .
qed

lemma search_iff:
  "search re pre prev cs \<noteq> None \<longleftrightarrow>
     (\<exists>a b. cs = a @ b \<and> run re (prevAfter prev a) b (False, []) \<noteq> None)"
proof (induction cs arbitrary: pre prev)
  case Nil
  show ?case by (auto simp: prevAfter_def split: option.splits)
next
  case (Cons c cs)
  have "(\<exists>a b. c # cs = a @ b \<and> run re (prevAfter prev a) b (False, []) \<noteq> None)
     \<longleftrightarrow> (run re prev (c # cs) (False, []) \<noteq> None
          \<or> (\<exists>a b. cs = a @ b \<and> run re (prevAfter (Some c) a) b (False, []) \<noteq> None))"
    (is "?L \<longleftrightarrow> ?A \<or> ?B")
  proof
    assume ?L
    then obtain a b where h: "c # cs = a @ b" "run re (prevAfter prev a) b (False, []) \<noteq> None"
      by blast
    show "?A \<or> ?B"
    proof (cases a)
      case Nil
      with h show ?thesis by (simp add: prevAfter_def)
    next
      case (Cons d a')
      with h have "cs = a' @ b" "run re (prevAfter (Some c) a') b (False, []) \<noteq> None"
        by (simp_all add: prevAfter_Cons)
      then show ?thesis by blast
    qed
  next
    assume "?A \<or> ?B"
    then show ?L
    proof
      assume ?A
      then have "c # cs = [] @ (c # cs) \<and> run re (prevAfter prev []) (c # cs) (False, []) \<noteq> None"
        by (simp add: prevAfter_def)
      then show ?L by blast
    next
      assume ?B
      then obtain a b where "cs = a @ b" "run re (prevAfter (Some c) a) b (False, []) \<noteq> None"
        by blast
      then have "c # cs = (c # a) @ b \<and> run re (prevAfter prev (c # a)) b (False, []) \<noteq> None"
        by (simp add: prevAfter_Cons)
      then show ?L by blast
    qed
  qed
  note split = this
  have s: "search re pre prev (c # cs) \<noteq> None \<longleftrightarrow>
      (run re prev (c # cs) (False, []) \<noteq> None \<or> search re (pre @ [c]) (Some c) cs \<noteq> None)"
    by (auto split: option.splits)
  show ?case by (simp only: s Cons.IH split)
qed

lemma run_plus_iff:
  assumes "\<And>p c ys. (run rs p ys c \<noteq> None) = Q ys"
  shows "run (One x # Star x # rs) prev cs cap \<noteq> None \<longleftrightarrow>
     (\<exists>xs ys. cs = xs @ ys \<and> xs \<noteq> [] \<and> list_all (inCls x) xs \<and> Q ys)"
proof
  assume "run (One x # Star x # rs) prev cs cap \<noteq> None"
  then obtain c cs' where h: "cs = c # cs'" "inCls x c"
    "run (Star x # rs) (Some c) cs' (push cap c) \<noteq> None"
    unfolding run_One_iff by blast
  from h(3) obtain xs ys where g: "cs' = xs @ ys" "list_all (inCls x) xs" "Q ys"
    unfolding run_Star_iff assms by blast
  from h g have "cs = (c # xs) @ ys \<and> c # xs \<noteq> [] \<and> list_all (inCls x) (c # xs) \<and> Q ys"
    by simp
  then show "\<exists>xs ys. cs = xs @ ys \<and> xs \<noteq> [] \<and> list_all (inCls x) xs \<and> Q ys" by blast
next
  assume "\<exists>xs ys. cs = xs @ ys \<and> xs \<noteq> [] \<and> list_all (inCls x) xs \<and> Q ys"
  then obtain xs ys where h: "cs = xs @ ys" "xs \<noteq> []" "list_all (inCls x) xs" "Q ys" by blast
  then obtain c xs' where c: "xs = c # xs'" by (cases xs) auto
  with h have "cs = c # (xs' @ ys)" "inCls x c" "list_all (inCls x) xs'" by simp_all
  moreover have "run (Star x # rs) (Some c) (xs' @ ys) (push cap c) \<noteq> None"
    unfolding run_Star_iff assms using \<open>list_all (inCls x) xs'\<close> h(4) by blast
  ultimately show "run (One x # Star x # rs) prev cs cap \<noteq> None"
    unfolding run_One_iff by blast
qed

lemma run_lit_end: "(run (lit s) p ys c \<noteq> None) = (\<exists>r. ys = s @ r)"
  using run_lit_iff[of s "[]" p ys c] by simp

lemma run_countPattern_iff:
  "run (countPattern obj) prev cs cap \<noteq> None \<longleftrightarrow>
     (\<exists>ds ws r. cs = ds @ ws @ obj @ r \<and> ds \<noteq> [] \<and> list_all (inCls digit) ds
        \<and> ws \<noteq> [] \<and> list_all (inCls whiteSpace) ws)"
proof -
  have space: "(run (GroupClose # One whiteSpace # Star whiteSpace # lit obj) p ys c \<noteq> None)
      = (\<exists>ws r. ys = ws @ r \<and> ws \<noteq> [] \<and> list_all (inCls whiteSpace) ws \<and> (\<exists>r'. r = obj @ r'))"
    for p ys c
  proof -
    have "(run (One whiteSpace # Star whiteSpace # lit obj) p ys (False, snd c) \<noteq> None)
      = (\<exists>ws r. ys = ws @ r \<and> ws \<noteq> [] \<and> list_all (inCls whiteSpace) ws \<and> (\<exists>r'. r = obj @ r'))"
      by (rule run_plus_iff [OF run_lit_end])
    then show ?thesis by (simp only: run.simps)
  qed
  have "run (countPattern obj) prev cs cap \<noteq> None \<longleftrightarrow>
      run (One digit # Star digit # GroupClose # One whiteSpace # Star whiteSpace # lit obj)
        prev cs (True, []) \<noteq> None"
    by (simp add: countPattern_def oneOrMore_def)
  also have "\<dots> \<longleftrightarrow> (\<exists>ds ys. cs = ds @ ys \<and> ds \<noteq> [] \<and> list_all (inCls digit) ds
      \<and> (\<exists>ws r. ys = ws @ r \<and> ws \<noteq> [] \<and> list_all (inCls whiteSpace) ws \<and> (\<exists>r'. r = obj @ r')))"
    by (rule run_plus_iff) (rule space)
  also have "\<dots> \<longleftrightarrow> (\<exists>ds ws r. cs = ds @ ws @ obj @ r \<and> ds \<noteq> [] \<and> list_all (inCls digit) ds
        \<and> ws \<noteq> [] \<and> list_all (inCls whiteSpace) ws)"
    by blast
  finally show ?thesis .
qed

lemma countPattern_iff: "re_exec (countPattern obj) text \<noteq> None \<longleftrightarrow> hasCountOf obj text"
  unfolding re_exec_def search_iff run_countPattern_iff hasCountOf_def by blast

lemma scanCount_none:
  "\<forall>m \<in> set ms. \<not> textFails m \<and> \<not> countMatches member pattern m \<Longrightarrow>
     scanCount member obj pattern ms = Inr None"
  by (induction ms) (auto simp: msgText_cases countMatches_def Let_def split: option.splits)

text \<open>
  C3, as the code has it. The member is the first capitalised word, so for
  \<open>How many dogs does Sam have?\<close> it is \<open>How\<close>, and with the message
  \<open>Sam has 3 dogs at home\<close> the answer is the fallback. With the question written
  \<open>how many dogs does Sam have?\<close> the member is \<open>Sam\<close> and the answer is
  \<open>Sam has 3 dogs.\<close> For either question, when the text of every message converts to
  a string and no message both mentions the extracted member and contains digits, then
  white space, then \<open>dogs\<close>, the answer is the fallback.
\<close>

theorem count_example_amended:
  "generateAnswer (str ''how many dogs does Sam have?'')
       [emptyMsg\<lparr>f_message := JString (str ''Sam has 3 dogs at home'')\<rparr>]
     = Inr (str ''Sam has 3 dogs.'')
   \<and> extractMemberName (str ''How many dogs does Sam have?'') = Some (str ''How'')
   \<and> generateAnswer (str ''How many dogs does Sam have?'')
       [emptyMsg\<lparr>f_message := JString (str ''Sam has 3 dogs at home'')\<rparr>]
     = Inr fallback
   \<and> ((\<forall>m \<in> set ms. \<not> textFails m
                          \<and> \<not> (includes_str (normalize_text (textOf m)) (str ''how'')
                                 \<and> hasCountOf (str ''dogs'') (normalize_text (textOf m))))
        \<longrightarrow> generateAnswer (str ''How many dogs does Sam have?'') ms = Inr fallback)
   \<and> ((\<forall>m \<in> set ms. \<not> textFails m
                          \<and> \<not> (includes_str (normalize_text (textOf m)) (str ''sam'')
                                 \<and> hasCountOf (str ''dogs'') (normalize_text (textOf m))))
        \<longrightarrow> generateAnswer (str ''how many dogs does Sam have?'') ms = Inr fallback)"
proof -
  have e1: "generateAnswer (str ''how many dogs does Sam have?'')
       [emptyMsg\<lparr>f_message := JString (str ''Sam has 3 dogs at home'')\<rparr>]
     = Inr (str ''Sam has 3 dogs.'')"
    by code_simp
  have e2: "extractMemberName (str ''How many dogs does Sam have?'') = Some (str ''How'')"
    by code_simp
  have e3: "generateAnswer (str ''How many dogs does Sam have?'')
       [emptyMsg\<lparr>f_message := JString (str ''Sam has 3 dogs at home'')\<rparr>]
     = Inr fallback"
    by code_simp
  have e4: "extractMemberName (str ''how many dogs does Sam have?'') = Some (str ''Sam'')"
    by code_simp
  have g: "map_option group1 (re_exec re_howMany (normalize_text (str ''How many dogs does Sam have?'')))
      = Some (str ''dogs'')"
     "map_option group1 (re_exec re_howMany (normalize_text (str ''how many dogs does Sam have?'')))
      = Some (str ''dogs'')"
    by code_simp+
  have p: "trim (str ''dogs'') = str ''dogs''"
    "newRegExp_count (str ''dogs'') = Inr (countPattern (str ''dogs''))"
    "str ''How'' \<noteq> []" "str ''Sam'' \<noteq> []"
    by code_simp+
  have l: "toLowerCase (str ''How'') = str ''how''" "toLowerCase (str ''Sam'') = str ''sam''"
    by code_simp+
  have s: "handleAssessmentSpecificQuestions (str ''How many dogs does Sam have?'') = None"
    "classifyIntent (str ''How many dogs does Sam have?'') = COUNT"
    "handleAssessmentSpecificQuestions (str ''how many dogs does Sam have?'') = None"
    "classifyIntent (str ''how many dogs does Sam have?'') = COUNT"
    by code_simp+
  have c1: "answerCountQuestion (str ''How many dogs does Sam have?'') ms
      = scanCount (str ''How'') (str ''dogs'') (countPattern (str ''dogs'')) ms"
    using g(1) e2 p by (auto simp: answerCountQuestion_def Let_def split: option.splits)
  have c2: "answerCountQuestion (str ''how many dogs does Sam have?'') ms
      = scanCount (str ''Sam'') (str ''dogs'') (countPattern (str ''dogs'')) ms"
    using g(2) e4 p by (auto simp: answerCountQuestion_def Let_def split: option.splits)
  have m: "countMatches (str ''How'') (countPattern (str ''dogs'')) x
      \<longleftrightarrow> \<not> textFails x \<and> includes_str (normalize_text (textOf x)) (str ''how'')
          \<and> hasCountOf (str ''dogs'') (normalize_text (textOf x))"
    "countMatches (str ''Sam'') (countPattern (str ''dogs'')) x
      \<longleftrightarrow> \<not> textFails x \<and> includes_str (normalize_text (textOf x)) (str ''sam'')
          \<and> hasCountOf (str ''dogs'') (normalize_text (textOf x))" for x
    by (simp_all only: countMatches_def countPattern_iff l)
  have f1: "(\<forall>m \<in> set ms. \<not> textFails m
                          \<and> \<not> (includes_str (normalize_text (textOf m)) (str ''how'')
                                 \<and> hasCountOf (str ''dogs'') (normalize_text (textOf m))))
        \<longrightarrow> generateAnswer (str ''How many dogs does Sam have?'') ms = Inr fallback"
    using scanCount_none[of ms "str ''How''" "countPattern (str ''dogs'')" "str ''dogs''"]
    by (auto simp: generateAnswer_def s c1 truthy_str_def m(1))
  have f2: "(\<forall>m \<in> set ms. \<not> textFails m
                          \<and> \<not> (includes_str (normalize_text (textOf m)) (str ''sam'')
                                 \<and> hasCountOf (str ''dogs'') (normalize_text (textOf m))))
        \<longrightarrow> generateAnswer (str ''how many dogs does Sam have?'') ms = Inr fallback"
    using scanCount_none[of ms "str ''Sam''" "countPattern (str ''dogs'')" "str ''dogs''"]
    by (auto simp: generateAnswer_def s c2 truthy_str_def m(2))
  from e1 e2 e3 f1 f2 show ?thesis by (intro conjI)
qed

theorem count_example_amended_witness:
  "\<not> textFails (emptyMsg\<lparr>f_message := JString (str ''Sam has three dogs'')\<rparr>)
   \<and> includes_str (normalize_text (textOf (emptyMsg\<lparr>f_message := JString (str ''Sam has three dogs'')\<rparr>)))
       (str ''sam'')
   \<and> \<not> hasCountOf (str ''dogs'')
        (normalize_text (textOf (emptyMsg\<lparr>f_message := JString (str ''Sam has three dogs'')\<rparr>)))
   \<and> generateAnswer (str ''How many dogs does Sam have?'')
        [emptyMsg\<lparr>f_message := JString (str ''Sam has three dogs'')\<rparr>] = Inr fallback
   \<and> generateAnswer (str ''how many dogs does Sam have?'')
        [emptyMsg\<lparr>f_message := JString (str ''Sam has three dogs'')\<rparr>] = Inr fallback"
proof -
  have i: "\<not> textFails (emptyMsg\<lparr>f_message := JString (str ''Sam has three dogs'')\<rparr>)"
    "includes_str (normalize_text (textOf (emptyMsg\<lparr>f_message := JString (str ''Sam has three dogs'')\<rparr>)))
       (str ''sam'')"
    by code_simp+
  have r: "re_exec (countPattern (str ''dogs''))
      (normalize_text (textOf (emptyMsg\<lparr>f_message := JString (str ''Sam has three dogs'')\<rparr>))) = None"
    by code_simp
  have n: "\<not> hasCountOf (str ''dogs'')
        (normalize_text (textOf (emptyMsg\<lparr>f_message := JString (str ''Sam has three dogs'')\<rparr>)))"
    using r countPattern_iff by blast
  have h1: "\<forall>m \<in> set [emptyMsg\<lparr>f_message := JString (str ''Sam has three dogs'')\<rparr>].
      \<not> textFails m
      \<and> \<not> (includes_str (normalize_text (textOf m)) (str ''how'')
         \<and> hasCountOf (str ''dogs'') (normalize_text (textOf m)))"
    using n i(1) by simp
  have h2: "\<forall>m \<in> set [emptyMsg\<lparr>f_message := JString (str ''Sam has three dogs'')\<rparr>].
      \<not> textFails m
      \<and> \<not> (includes_str (normalize_text (textOf m)) (str ''sam'')
         \<and> hasCountOf (str ''dogs'') (normalize_text (textOf m)))"
    using n i(1) by simp
  note t = count_example_amended [of "[emptyMsg\<lparr>f_message := JString (str ''Sam has three dogs'')\<rparr>]"]
  have c1: "generateAnswer (str ''How many dogs does Sam have?'')
        [emptyMsg\<lparr>f_message := JString (str ''Sam has three dogs'')\<rparr>] = Inr fallback"
    using t h1 by blast
  have c2: "generateAnswer (str ''how many dogs does Sam have?'')
        [emptyMsg\<lparr>f_message := JString (str ''Sam has three dogs'')\<rparr>] = Inr fallback"
    using t h2 by blast
  show ?thesis using i n c1 c2 by simp
qed

text \<open>The claimed answer is not the one returned.\<close>

theorem count_example_counterexample:
  "generateAnswer (str ''How many dogs does Sam have?'')
       [emptyMsg\<lparr>f_message := JString (str ''Sam has 3 dogs at home'')\<rparr>]
     \<noteq> Inr (str ''Sam has 3 dogs.'')"
  by code_simp

section \<open>When\<close>

text \<open>
  C4, as the code has it. With the question written
  \<open>when is Maya planning her trip to Paris\<close> (so that the member is \<open>Maya\<close> and the
  last query term is \<open>paris\<close>) and the message of the claim, the answer is
  \<open>Maya is planning that on 2024-05-01.\<close>; without the date field the same message
  is still the one the scan finds, and the answer is the fallback. With the question of
  the claim the member is \<open>When\<close> and the last query term is \<open>paris?\<close>, and the answer
  is the fallback with or without the date; either difference alone already gives the
  fallback.
\<close>

theorem when_example_amended:
  "generateAnswer (str ''when is Maya planning her trip to Paris'')
       [emptyMsg\<lparr>f_message := JString (str ''Maya is planning her trip to Paris''),
                 f_date := JString (str ''2024-05-01'')\<rparr>]
     = Inr (str ''Maya is planning that on 2024-05-01.'')
   \<and> findBest (str ''Maya'') (queryTerms (str ''when is Maya planning her trip to Paris''))
       [emptyMsg\<lparr>f_message := JString (str ''Maya is planning her trip to Paris'')\<rparr>]
     = Inr (Some (emptyMsg\<lparr>f_message := JString (str ''Maya is planning her trip to Paris'')\<rparr>))
   \<and> generateAnswer (str ''when is Maya planning her trip to Paris'')
       [emptyMsg\<lparr>f_message := JString (str ''Maya is planning her trip to Paris'')\<rparr>]
     = Inr fallback
   \<and> extractMemberName (str ''When is Maya planning her trip to Paris?'') = Some (str ''When'')
   \<and> queryTerms (str ''When is Maya planning her trip to Paris?'')
     = [str ''maya'', str ''her'', str ''trip'', str ''to'', str ''paris?'']
   \<and> generateAnswer (str ''When is Maya planning her trip to Paris?'')
       [emptyMsg\<lparr>f_message := JString (str ''Maya is planning her trip to Paris''),
                 f_date := JString (str ''2024-05-01'')\<rparr>]
     = Inr fallback
   \<and> generateAnswer (str ''When is Maya planning her trip to Paris?'')
       [emptyMsg\<lparr>f_message := JString (str ''Maya is planning her trip to Paris'')\<rparr>]
     = Inr fallback
   \<and> generateAnswer (str ''When is Maya planning her trip to Paris'')
       [emptyMsg\<lparr>f_message := JString (str ''Maya is planning her trip to Paris''),
                 f_date := JString (str ''2024-05-01'')\<rparr>]
     = Inr fallback
   \<and> generateAnswer (str ''when is Maya planning her trip to Paris?'')
       [emptyMsg\<lparr>f_message := JString (str ''Maya is planning her trip to Paris''),
                 f_date := JString (str ''2024-05-01'')\<rparr>]
     = Inr fallback"
  by code_simp

text \<open>The claimed answer is not the one returned.\<close>

theorem when_example_counterexample:
  "generateAnswer (str ''When is Maya planning her trip to Paris?'')
       [emptyMsg\<lparr>f_message := JString (str ''Maya is planning her trip to Paris''),
                 f_date := JString (str ''2024-05-01'')\<rparr>]
     \<noteq> Inr (str ''Maya is planning that on 2024-05-01.'')"
  by code_simp




end
